theory Spec2Isabelle
  imports Complex_Main "HOL-Library.Word" "HOL-Library.Signed_Division"
begin

section \<open>Machine integers, doubles and the clock\<close>

text \<open>
  The engine is built for a 64-bit Linux target: \<open>unsigned long\<close> and \<open>signed long\<close> are
  64-bit. Both are modelled as \<open>64 word\<close>; \<open>+\<close> and \<open>-\<close> wrap modulo \<open>2 ^ 64\<close>, an
  unsigned comparison is \<open><\<close> on words, a signed one is \<open><s\<close> (it compares \<open>sint\<close>).
  A conversion between the two types keeps the bits, so a cast \<open>(long) x\<close> is the
  identity on the word and only changes which comparison the code uses afterwards.
  Signed overflow is undefined in C++; the model gives it the two's complement
  result the target computes.
\<close>

type_synonym ulong = "64 word"
type_synonym slong = "64 word"

text \<open>\<open>std::min\<close> and \<open>std::max\<close> at type \<open>long\<close>: \<open>min a b\<close> is \<open>(b < a) ? b : a\<close>,
  \<open>max a b\<close> is \<open>(a < b) ? b : a\<close>, with the signed comparison.\<close>

definition std_min_long :: "slong \<Rightarrow> slong \<Rightarrow> slong" where
  "std_min_long a b = (if b <s a then b else a)"

definition std_max_long :: "slong \<Rightarrow> slong \<Rightarrow> slong" where
  "std_max_long a b = (if a <s b then b else a)"

text \<open>\<open>std::abs\<close> at type \<open>long\<close>: the negation wraps at the least value.\<close>

definition std_abs_long :: "slong \<Rightarrow> slong" where
  "std_abs_long x = (if x <s 0 then - x else x)"

text \<open>The quotient \<open>a / b\<close> of two \<open>long\<close> values truncates towards zero.\<close>

definition long_div :: "slong \<Rightarrow> slong \<Rightarrow> slong" where
  "long_div a b = word_of_int (sint a sdiv sint b)"

text \<open>
  \<open>std::ceil\<close> and \<open>std::floor\<close> applied to an integer argument convert it to \<open>double\<close>
  first. A double holds 53 significant bits: a \<open>long\<close> of magnitude below \<open>2 ^ 53\<close> is
  kept exactly, a larger one is rounded to the nearest multiple of the power of two
  that leaves 53 bits, ties to the even multiple. The doubles that occur are finite
  rationals, so the type \<open>rat\<close> carries them.
\<close>

definition bit_count :: "int \<Rightarrow> nat" where
  "bit_count a = length (takeWhile (\<lambda>e. 2 ^ e \<le> a) [0..<64])"

definition double_of_long :: "slong \<Rightarrow> rat" where
  "double_of_long x =
     (let a = \<bar>sint x\<bar> in
      if a < 2 ^ 53 then of_int (sint x)
      else
        let e = bit_count a - 53;
            q = a div 2 ^ e;
            r = a mod 2 ^ e;
            h = 2 ^ (e - 1);
            q' = (if h < r \<or> (r = h \<and> odd q) then q + 1 else q)
        in of_int (sgn (sint x) * q' * 2 ^ e))"

definition std_ceil :: "rat \<Rightarrow> rat" where
  "std_ceil d = of_int \<lceil>d\<rceil>"

definition std_floor :: "rat \<Rightarrow> rat" where
  "std_floor d = of_int \<lfloor>d\<rfloor>"

text \<open>A double assigned to an integer field drops its fraction (towards zero); the
  values that occur have magnitude at most \<open>2 ^ 62\<close> and fit.\<close>

definition ulong_of_double :: "rat \<Rightarrow> ulong" where
  "ulong_of_double d = word_of_int (if d < 0 then \<lceil>d\<rceil> else \<lfloor>d\<rfloor>)"

text \<open>
  A reading of \<open>std::chrono::steady_clock::now()\<close> is the clock's tick count: a signed
  64-bit number of nanoseconds. The difference of two readings is taken in that type and
  wraps like any other \<open>long\<close>; \<open>duration_cast<milliseconds>\<close> divides it by \<open>10 ^ 6\<close>,
  truncating towards zero, and \<open>count()\<close> is compared as a \<open>long\<close>.
\<close>

type_synonym time_point = "64 word"

definition elapsed_ms :: "time_point \<Rightarrow> time_point \<Rightarrow> int" where
  "elapsed_ms now start = sint (now - start) sdiv 1000000"

section \<open>Constants\<close>

definition POSITION_LIMIT :: slong where
  "POSITION_LIMIT = 100"

definition TICK_SIZE_IN_CENTS :: int where
  "TICK_SIZE_IN_CENTS = 100"

definition MAX_UNHEDGED_LOTS :: slong where
  "MAX_UNHEDGED_LOTS = 10"

definition UNHEDGED_LOTS_TIME_LIMIT :: int where
  "UNHEDGED_LOTS_TIME_LIMIT = 57500"

text \<open>
  \<open>MINIMUM_BID\<close> and \<open>MAXIMUM_ASK\<close> are constants of the exchange library's headers,
  which are not among the sources; the two hedge prices are computed from them at compile
  time in \<open>int\<close> arithmetic. They are parameters of the model.
\<close>

record venue =
  MINIMUM_BID :: int
  MAXIMUM_ASK :: int

definition MIN_BID_NEAREST_TICK :: "venue \<Rightarrow> int" where
  "MIN_BID_NEAREST_TICK v =
     (MINIMUM_BID v + TICK_SIZE_IN_CENTS) sdiv TICK_SIZE_IN_CENTS * TICK_SIZE_IN_CENTS"

definition MAX_ASK_NEAREST_TICK :: "venue \<Rightarrow> int" where
  "MAX_ASK_NEAREST_TICK v = MAXIMUM_ASK v sdiv TICK_SIZE_IN_CENTS * TICK_SIZE_IN_CENTS"

section \<open>The engine's state and its outbound commands\<close>

text \<open>
  Modelled from the spec: the enumerations and the three requests of the exchange
  library (its headers are not among the sources). The quoted instrument is \<open>FUTURE\<close>,
  the value the book handler names; the hedging instrument is called \<open>ETF\<close> here. The
  sides and the lifespan are the values the member functions pass. An insert carries
  identifier, side, price, volume and lifespan, a hedge identifier, side, price and
  volume, a cancel the identifier.
\<close>

datatype Instrument = FUTURE | ETF

datatype Side = SELL | BUY

datatype Lifespan = GOOD_FOR_DAY

datatype command =
    SendCancelOrder ulong
  | SendInsertOrder ulong Side ulong ulong Lifespan
  | SendHedgeOrder ulong Side ulong ulong

text \<open>
  Modelled from the spec: the fields of \<open>AutoTrader\<close>, which the class declaration
  (\<open>autotrader.h\<close>, not among the sources) declares. They are the items of the spec's
  data model under the names the member functions use, at the types of the parameters
  they are assigned from and compared with: identifiers, prices and volumes are
  \<open>unsigned long\<close>, the two positions are \<open>signed long\<close>, the two live-order sets are
  sets of identifiers, the timer is a clock reading. \<open>outbox\<close> is not a field: it records
  the requests handed to the base class, oldest first.
\<close>

record AutoTrader =
  mNextMessageId :: ulong
  mAskId :: ulong
  mAskPrice :: ulong
  mAskVolume :: ulong
  mBidId :: ulong
  mBidPrice :: ulong
  mBidVolume :: ulong
  mPosition :: slong
  mHedgePosition :: slong
  mNewAskVolume :: ulong
  mNewBidVolume :: ulong
  mAsks :: "ulong set"
  mBids :: "ulong set"
  mStartTime :: time_point
  outbox :: "command list"

section \<open>The member functions\<close>

text \<open>Each member function takes the engine's state and returns the state it leaves.
  The logging calls are left out: they read the state and the arguments only.\<close>

definition CancelAskOrder :: "ulong \<Rightarrow> AutoTrader \<Rightarrow> AutoTrader" where
  "CancelAskOrder newAskPrice s =
     (if mAskId s \<noteq> 0 \<and> newAskPrice \<noteq> 0 \<and> newAskPrice \<noteq> mAskPrice s
      then s\<lparr>outbox := outbox s @ [SendCancelOrder (mAskId s)], mAskId := 0\<rparr>
      else s)"

definition CancelBidOrder :: "ulong \<Rightarrow> AutoTrader \<Rightarrow> AutoTrader" where
  "CancelBidOrder newBidPrice s =
     (if mBidId s \<noteq> 0 \<and> newBidPrice \<noteq> 0 \<and> newBidPrice \<noteq> mBidPrice s
      then s\<lparr>outbox := outbox s @ [SendCancelOrder (mBidId s)], mBidId := 0\<rparr>
      else s)"

text \<open>The clamped volume is computed at type \<open>long\<close> and stored back into the
  \<open>unsigned long\<close> parameter, so the test \<open>newAskVolume > 0\<close> is the unsigned one.\<close>

definition InsertAskOrder :: "ulong \<Rightarrow> ulong \<Rightarrow> AutoTrader \<Rightarrow> AutoTrader" where
  "InsertAskOrder newAskPrice newAskVolume s =
     (let newAskVolume' =
            std_min_long (mPosition s + POSITION_LIMIT - mAskVolume s) newAskVolume
      in if mAskId s = 0 \<and> newAskPrice \<noteq> 0 \<and> 0 < newAskVolume'
         then s\<lparr>mAskId := mNextMessageId s,
                mNextMessageId := mNextMessageId s + 1,
                mAskPrice := newAskPrice,
                mAskVolume := newAskVolume',
                outbox := outbox s @
                  [SendInsertOrder (mNextMessageId s) SELL newAskPrice newAskVolume' GOOD_FOR_DAY],
                mAsks := insert (mNextMessageId s) (mAsks s)\<rparr>
         else s)"

definition InsertBidOrder :: "ulong \<Rightarrow> ulong \<Rightarrow> AutoTrader \<Rightarrow> AutoTrader" where
  "InsertBidOrder newBidPrice newBidVolume s =
     (let newBidVolume' =
            std_min_long (POSITION_LIMIT - mPosition s - mBidVolume s) newBidVolume
      in if mBidId s = 0 \<and> newBidPrice \<noteq> 0 \<and> 0 < newBidVolume'
         then s\<lparr>mBidId := mNextMessageId s,
                mNextMessageId := mNextMessageId s + 1,
                mBidPrice := newBidPrice,
                mBidVolume := newBidVolume',
                outbox := outbox s @
                  [SendInsertOrder (mNextMessageId s) BUY newBidPrice newBidVolume' GOOD_FOR_DAY],
                mBids := insert (mNextMessageId s) (mBids s)\<rparr>
         else s)"

definition HedgeOrder :: "venue \<Rightarrow> AutoTrader \<Rightarrow> AutoTrader" where
  "HedgeOrder v s =
     (if MAX_UNHEDGED_LOTS <s mPosition s + mHedgePosition s
      then let askVolume = mPosition s + mHedgePosition s - MAX_UNHEDGED_LOTS
           in s\<lparr>outbox := outbox s @
                   [SendHedgeOrder (mNextMessageId s) SELL
                      (word_of_int (MIN_BID_NEAREST_TICK v)) askVolume],
                 mNextMessageId := mNextMessageId s + 1,
                 mHedgePosition := mHedgePosition s - askVolume\<rparr>
      else if mPosition s + mHedgePosition s <s - MAX_UNHEDGED_LOTS
      then let bidVolume = - (mPosition s + mHedgePosition s + MAX_UNHEDGED_LOTS)
           in s\<lparr>outbox := outbox s @
                   [SendHedgeOrder (mNextMessageId s) BUY
                      (word_of_int (MAX_ASK_NEAREST_TICK v)) bidVolume],
                 mNextMessageId := mNextMessageId s + 1,
                 mHedgePosition := mHedgePosition s + bidVolume\<rparr>
      else s)"

definition OrderStatusMessageHandler ::
  "ulong \<Rightarrow> ulong \<Rightarrow> ulong \<Rightarrow> slong \<Rightarrow> AutoTrader \<Rightarrow> AutoTrader" where
  "OrderStatusMessageHandler clientOrderId fillVolume remainingVolume fees s =
     (if remainingVolume = 0
      then let s1 = (if clientOrderId = mAskId s then s\<lparr>mAskId := 0, mAskVolume := 0\<rparr>
                     else if clientOrderId = mBidId s then s\<lparr>mBidId := 0, mBidVolume := 0\<rparr>
                     else s)
           in s1\<lparr>mAsks := mAsks s1 - {clientOrderId}, mBids := mBids s1 - {clientOrderId}\<rparr>
      else if 0 < fillVolume
      then (if clientOrderId = mAskId s
            then s\<lparr>mAskVolume := std_max_long (mAskVolume s - fillVolume) 0\<rparr>
            else if clientOrderId = mBidId s
            then s\<lparr>mBidVolume := std_max_long (mBidVolume s - fillVolume) 0\<rparr>
            else s)
      else s)"

definition ErrorMessageHandler :: "ulong \<Rightarrow> string \<Rightarrow> AutoTrader \<Rightarrow> AutoTrader" where
  "ErrorMessageHandler clientOrderId errorMessage s =
     (if clientOrderId \<noteq> 0 \<and> (clientOrderId \<in> mAsks s \<or> clientOrderId \<in> mBids s)
      then OrderStatusMessageHandler clientOrderId 0 0 0 s
      else s)"

definition HedgeFilledMessageHandler :: "ulong \<Rightarrow> ulong \<Rightarrow> ulong \<Rightarrow> AutoTrader \<Rightarrow> AutoTrader" where
  "HedgeFilledMessageHandler clientOrderId price volume s = s"

text \<open>
  The book handler reads the first level of the ask and bid price arrays (the arrays
  have \<open>TOP_LEVEL_COUNT\<close> entries, at least one). It reads the clock once to take the
  branch (\<open>now1\<close>) and, when it has hedged, once more to restart the timer (\<open>now2\<close>).
\<close>

definition OrderBookMessageHandler ::
  "venue \<Rightarrow> time_point \<Rightarrow> time_point \<Rightarrow> Instrument \<Rightarrow> ulong \<Rightarrow>
   ulong list \<Rightarrow> ulong list \<Rightarrow> ulong list \<Rightarrow> ulong list \<Rightarrow> AutoTrader \<Rightarrow> AutoTrader" where
  "OrderBookMessageHandler v now1 now2 instrument sequenceNumber
     askPrices askVolumes bidPrices bidVolumes s =
     (if instrument = FUTURE
      then let newAskPrice = askPrices ! 0;
               newBidPrice = bidPrices ! 0;
               s1 = CancelAskOrder newAskPrice s;
               s2 = InsertAskOrder newAskPrice (mNewAskVolume s1) s1;
               s3 = CancelBidOrder newBidPrice s2;
               s4 = InsertBidOrder newBidPrice (mNewBidVolume s3) s3
           in if std_abs_long (mPosition s4 + mHedgePosition s4) \<le>s MAX_UNHEDGED_LOTS
              then s4\<lparr>mStartTime := now1\<rparr>
              else if UNHEDGED_LOTS_TIME_LIMIT \<le> elapsed_ms now1 (mStartTime s4)
              then (HedgeOrder v s4)\<lparr>mStartTime := now2\<rparr>
              else s4
      else s)"

text \<open>The quotient \<open>(POSITION_LIMIT - mPosition) / 2\<close> is taken at type \<open>long\<close> before
  \<open>std::ceil\<close> or \<open>std::floor\<close> sees it.\<close>

definition OrderFilledMessageHandler :: "ulong \<Rightarrow> ulong \<Rightarrow> ulong \<Rightarrow> AutoTrader \<Rightarrow> AutoTrader" where
  "OrderFilledMessageHandler clientOrderId price volume s =
     (let s1 = (if clientOrderId \<in> mAsks s then s\<lparr>mPosition := mPosition s - volume\<rparr>
                else if clientOrderId \<in> mBids s then s\<lparr>mPosition := mPosition s + volume\<rparr>
                else s);
          s2 = s1\<lparr>mNewBidVolume := ulong_of_double
                  (if mPosition s1 <s 0
                   then std_ceil (double_of_long (long_div (POSITION_LIMIT - mPosition s1) 2))
                   else std_floor (double_of_long (long_div (POSITION_LIMIT - mPosition s1) 2)))\<rparr>
      in s2\<lparr>mNewAskVolume := mPosition s2 + mNewBidVolume s2\<rparr>)"

definition TradeTicksMessageHandler ::
  "Instrument \<Rightarrow> ulong \<Rightarrow> ulong list \<Rightarrow> ulong list \<Rightarrow> ulong list \<Rightarrow> ulong list \<Rightarrow>
   AutoTrader \<Rightarrow> AutoTrader" where
  "TradeTicksMessageHandler instrument sequenceNumber askPrices askVolumes bidPrices bidVolumes s = s"

section \<open>Event sequences\<close>

text \<open>
  An event is one callback of the execution gateway with its arguments; a book update
  also carries the two clock readings its handler may take. The gateway delivers the
  callbacks one at a time and each handler runs to its end, so a run of the engine is
  the left-to-right application of the handlers. \<open>DisconnectHandler\<close> only calls the base
  class and logs; it is not among the events.
\<close>

datatype event =
    OrderBookMessage time_point time_point Instrument ulong
      "ulong list" "ulong list" "ulong list" "ulong list"
  | OrderFilledMessage ulong ulong ulong
  | OrderStatusMessage ulong ulong ulong slong
  | ErrorMessage ulong string
  | HedgeFilledMessage ulong ulong ulong
  | TradeTicksMessage Instrument ulong "ulong list" "ulong list" "ulong list" "ulong list"

fun handle :: "venue \<Rightarrow> event \<Rightarrow> AutoTrader \<Rightarrow> AutoTrader" where
  "handle v (OrderBookMessage now1 now2 i n ap av bp bv) s =
     OrderBookMessageHandler v now1 now2 i n ap av bp bv s"
| "handle v (OrderFilledMessage c p vol) s = OrderFilledMessageHandler c p vol s"
| "handle v (OrderStatusMessage c f r fees) s = OrderStatusMessageHandler c f r fees s"
| "handle v (ErrorMessage c m) s = ErrorMessageHandler c m s"
| "handle v (HedgeFilledMessage c p vol) s = HedgeFilledMessageHandler c p vol s"
| "handle v (TradeTicksMessage i n ap av bp bv) s = TradeTicksMessageHandler i n ap av bp bv s"

fun run :: "venue \<Rightarrow> event list \<Rightarrow> AutoTrader \<Rightarrow> AutoTrader" where
  "run v [] s = s"
| "run v (e # es) s = run v es (handle v e s)"

text \<open>
  Modelled from the spec: the initial values of the fields, which the class declaration
  (\<open>autotrader.h\<close>, not among the sources) sets. A fresh engine has filled and hedged
  nothing, no order rests (both identifiers hold the sentinel 0, with no price and no
  volume), both live-order sets are empty, and the identifier counter is at its first
  value, 1. The initial next-quote volumes and the initial timer value are parameters.
\<close>

definition initial :: "ulong \<Rightarrow> ulong \<Rightarrow> time_point \<Rightarrow> AutoTrader" where
  "initial newAsk newBid t0 =
     \<lparr>mNextMessageId = 1, mAskId = 0, mAskPrice = 0, mAskVolume = 0,
      mBidId = 0, mBidPrice = 0, mBidVolume = 0, mPosition = 0, mHedgePosition = 0,
      mNewAskVolume = newAsk, mNewBidVolume = newBid, mAsks = {}, mBids = {},
      mStartTime = t0, outbox = []\<rparr>"

text \<open>Two states used in the examples: the limits of the exchange the engine was written
  for, and an engine that has quoted 50 lots on each side, order 1 asking at 10000 and
  order 2 bidding at 9900.\<close>

definition example_venue :: venue where
  "example_venue = \<lparr>MINIMUM_BID = 1, MAXIMUM_ASK = 2147483647\<rparr>"

definition resting_pair :: AutoTrader where
  "resting_pair =
     \<lparr>mNextMessageId = 3, mAskId = 1, mAskPrice = 10000, mAskVolume = 50,
      mBidId = 2, mBidPrice = 9900, mBidVolume = 50, mPosition = 0, mHedgePosition = 0,
      mNewAskVolume = 50, mNewBidVolume = 50, mAsks = {1}, mBids = {2},
      mStartTime = 0,
      outbox = [SendInsertOrder 1 SELL 10000 50 GOOD_FOR_DAY,
                SendInsertOrder 2 BUY 9900 50 GOOD_FOR_DAY]\<rparr>"

section \<open>Notions used to state the properties\<close>

text \<open>The requests a handler hands to the base class: what it appends to \<open>outbox\<close>.\<close>

definition emitted :: "AutoTrader \<Rightarrow> AutoTrader \<Rightarrow> command list" where
  "emitted s s' = drop (length (outbox s)) (outbox s')"

fun is_cancel :: "command \<Rightarrow> bool" where
  "is_cancel (SendCancelOrder i) = True"
| "is_cancel (SendInsertOrder i sd p q l) = False"
| "is_cancel (SendHedgeOrder i sd p q) = False"

fun is_insert :: "command \<Rightarrow> bool" where
  "is_insert (SendCancelOrder i) = False"
| "is_insert (SendInsertOrder i sd p q l) = True"
| "is_insert (SendHedgeOrder i sd p q) = False"

fun is_insert_of :: "Side \<Rightarrow> command \<Rightarrow> bool" where
  "is_insert_of sd' (SendCancelOrder i) = False"
| "is_insert_of sd' (SendInsertOrder i sd p q l) = (sd = sd')"
| "is_insert_of sd' (SendHedgeOrder i sd p q) = False"

fun is_hedge :: "command \<Rightarrow> bool" where
  "is_hedge (SendCancelOrder i) = False"
| "is_hedge (SendInsertOrder i sd p q l) = False"
| "is_hedge (SendHedgeOrder i sd p q) = True"

text \<open>The exposure test of the book handler. The quoting steps before it leave both
  positions as they are, so it can be read off the state the handler starts in.\<close>

definition in_tolerance :: "AutoTrader \<Rightarrow> bool" where
  "in_tolerance s \<longleftrightarrow> std_abs_long (mPosition s + mHedgePosition s) \<le>s MAX_UNHEDGED_LOTS"

text \<open>The state of the book handler after its four quoting calls, before the exposure
  test.\<close>

definition quoted :: "ulong \<Rightarrow> ulong \<Rightarrow> AutoTrader \<Rightarrow> AutoTrader" where
  "quoted newAskPrice newBidPrice s =
     (let s1 = CancelAskOrder newAskPrice s;
          s2 = InsertAskOrder newAskPrice (mNewAskVolume s1) s1;
          s3 = CancelBidOrder newBidPrice s2
      in InsertBidOrder newBidPrice (mNewBidVolume s3) s3)"

text \<open>The next bid volume the fill handler computes from a position.\<close>

definition recomputed_bid_volume :: "slong \<Rightarrow> ulong" where
  "recomputed_bid_volume p =
     ulong_of_double
       (if p <s 0
        then std_ceil (double_of_long (long_div (POSITION_LIMIT - p) 2))
        else std_floor (double_of_long (long_div (POSITION_LIMIT - p) 2)))"

text \<open>A status callback that names the sentinel 0 instead of an order.\<close>

fun status_of_none :: "event \<Rightarrow> bool" where
  "status_of_none (OrderStatusMessage c f r fees) = (c = 0)"
| "status_of_none (OrderBookMessage now1 now2 i n ap av bp bv) = False"
| "status_of_none (OrderFilledMessage c p vol) = False"
| "status_of_none (ErrorMessage c m) = False"
| "status_of_none (HedgeFilledMessage c p vol) = False"
| "status_of_none (TradeTicksMessage i n ap av bp bv) = False"

text \<open>The next-quote volumes are in step with the position when they hold the values the
  fill handler computes from it.\<close>

definition synced :: "AutoTrader \<Rightarrow> bool" where
  "synced s \<longleftrightarrow>
     mNewBidVolume s = recomputed_bid_volume (mPosition s) \<and>
     mNewAskVolume s = mPosition s + recomputed_bid_volume (mPosition s)"


subsection \<open>Observations of the exposure\<close>

text \<open>The clock readings an event's handler may take, in order.\<close>

fun readings :: "event \<Rightarrow> time_point list" where
  "readings (OrderBookMessage now1 now2 i n ap av bp bv) = [now1, now2]"
| "readings (OrderFilledMessage c p vol) = []"
| "readings (OrderStatusMessage c f r fees) = []"
| "readings (ErrorMessage c m) = []"
| "readings (HedgeFilledMessage c p vol) = []"
| "readings (TradeTicksMessage i n ap av bp bv) = []"

text \<open>
  A list of clock readings is steady when, read as \<open>long\<close>, they never decrease and
  no two of them are \<open>2 ^ 63\<close> ticks (292 years) or more apart, so that the difference
  of a later and an earlier reading does not wrap.
\<close>

definition steady :: "time_point list \<Rightarrow> bool" where
  "steady rs \<longleftrightarrow>
     sorted (map sint rs) \<and> (\<forall>a \<in> set rs. \<forall>b \<in> set rs. sint b - sint a < 2 ^ 63)"

text \<open>
  A book update of the quoted instrument observes the exposure. An observation records
  the reading the handler takes first, the reading it would take after a hedge, whether
  it found the exposure within the tolerance, and whether it emitted a hedge order.
\<close>

datatype observation =
  Observation (seen_at: time_point) (read_after: time_point) (inside: bool) (hedged: bool)

fun observe :: "venue \<Rightarrow> event \<Rightarrow> AutoTrader \<Rightarrow> observation list" where
  "observe v (OrderBookMessage now1 now2 FUTURE n ap av bp bv) s =
     [Observation now1 now2 (in_tolerance s)
        (list_ex is_hedge
           (emitted s (OrderBookMessageHandler v now1 now2 FUTURE n ap av bp bv s)))]"
| "observe v (OrderBookMessage now1 now2 ETF n ap av bp bv) s = []"
| "observe v (OrderFilledMessage c p vol) s = []"
| "observe v (OrderStatusMessage c f r fees) s = []"
| "observe v (ErrorMessage c m) s = []"
| "observe v (HedgeFilledMessage c p vol) s = []"
| "observe v (TradeTicksMessage i n ap av bp bv) s = []"

fun observations :: "venue \<Rightarrow> event list \<Rightarrow> AutoTrader \<Rightarrow> observation list" where
  "observations v [] s = []"
| "observations v (e # es) s = observe v e s @ observations v es (handle v e s)"

text \<open>
  What the observations say about the timer: an observation within the tolerance
  restarts it at its first reading, an observation that hedged restarts it at its second
  reading, any other observation leaves it running. \<open>timer_after t obs\<close> is the start of
  the timer after the observations \<open>obs\<close> (oldest first) when it was \<open>t\<close> before them.
\<close>

fun restart :: "observation \<Rightarrow> time_point option" where
  "restart (Observation t1 t2 ins hed) = (if ins then Some t1 else if hed then Some t2 else None)"

fun timer_after :: "time_point \<Rightarrow> observation list \<Rightarrow> time_point" where
  "timer_after t [] = t"
| "timer_after t (ob # obs) = timer_after (case restart ob of None \<Rightarrow> t | Some t' \<Rightarrow> t') obs"

text \<open>
  \<open>sustained obs t\<close>: at time \<open>t\<close>, the observations \<open>obs\<close> (latest first) show the
  exposure outside the tolerance without interruption since an observation that lies
  at least the debounce duration back.
\<close>

fun sustained :: "observation list \<Rightarrow> time_point \<Rightarrow> bool" where
  "sustained [] t = False"
| "sustained (ob # older) t =
     (\<not> inside ob \<and> (UNHEDGED_LOTS_TIME_LIMIT \<le> elapsed_ms t (seen_at ob) \<or> sustained older t))"

subsection \<open>Orderly fill reporting\<close>











section \<open>Basic facts about the member functions\<close>

lemma outbox_CancelAskOrder:
  "outbox (CancelAskOrder p s) = outbox s @
     (if mAskId s \<noteq> 0 \<and> p \<noteq> 0 \<and> p \<noteq> mAskPrice s then [SendCancelOrder (mAskId s)] else [])"
  by (simp add: CancelAskOrder_def)

lemma outbox_CancelBidOrder:
  "outbox (CancelBidOrder p s) = outbox s @
     (if mBidId s \<noteq> 0 \<and> p \<noteq> 0 \<and> p \<noteq> mBidPrice s then [SendCancelOrder (mBidId s)] else [])"
  by (simp add: CancelBidOrder_def)

lemma outbox_InsertAskOrder:
  "\<exists>xs. outbox (InsertAskOrder p q s) = outbox s @ xs \<and>
     (xs = [] \<or> (\<exists>i vol. xs = [SendInsertOrder i SELL p vol GOOD_FOR_DAY]))"
  by (simp add: InsertAskOrder_def Let_def)

lemma outbox_InsertBidOrder:
  "\<exists>xs. outbox (InsertBidOrder p q s) = outbox s @ xs \<and>
     (xs = [] \<or> (\<exists>i vol. xs = [SendInsertOrder i BUY p vol GOOD_FOR_DAY]))"
  by (simp add: InsertBidOrder_def Let_def)

lemma outbox_HedgeOrder:
  "\<exists>xs. outbox (HedgeOrder v s) = outbox s @ xs \<and>
     (xs = [] \<or> (\<exists>i sd p vol. xs = [SendHedgeOrder i sd p vol]))"
  by (simp add: HedgeOrder_def Let_def)

lemma frame_CancelAskOrder [simp]:
  "mBidId (CancelAskOrder p s) = mBidId s" "mBidPrice (CancelAskOrder p s) = mBidPrice s"
  "mBidVolume (CancelAskOrder p s) = mBidVolume s" "mAskVolume (CancelAskOrder p s) = mAskVolume s"
  "mAskPrice (CancelAskOrder p s) = mAskPrice s"
  "mPosition (CancelAskOrder p s) = mPosition s"
  "mHedgePosition (CancelAskOrder p s) = mHedgePosition s"
  "mNewAskVolume (CancelAskOrder p s) = mNewAskVolume s"
  "mNewBidVolume (CancelAskOrder p s) = mNewBidVolume s"
  "mStartTime (CancelAskOrder p s) = mStartTime s"
  by (simp_all add: CancelAskOrder_def)

lemma frame_CancelBidOrder [simp]:
  "mAskId (CancelBidOrder p s) = mAskId s" "mAskPrice (CancelBidOrder p s) = mAskPrice s"
  "mAskVolume (CancelBidOrder p s) = mAskVolume s" "mBidVolume (CancelBidOrder p s) = mBidVolume s"
  "mBidPrice (CancelBidOrder p s) = mBidPrice s"
  "mPosition (CancelBidOrder p s) = mPosition s"
  "mHedgePosition (CancelBidOrder p s) = mHedgePosition s"
  "mNewAskVolume (CancelBidOrder p s) = mNewAskVolume s"
  "mNewBidVolume (CancelBidOrder p s) = mNewBidVolume s"
  "mStartTime (CancelBidOrder p s) = mStartTime s"
  by (simp_all add: CancelBidOrder_def)

lemma frame_InsertAskOrder [simp]:
  "mBidId (InsertAskOrder p q s) = mBidId s" "mBidPrice (InsertAskOrder p q s) = mBidPrice s"
  "mBidVolume (InsertAskOrder p q s) = mBidVolume s"
  "mPosition (InsertAskOrder p q s) = mPosition s"
  "mHedgePosition (InsertAskOrder p q s) = mHedgePosition s"
  "mNewAskVolume (InsertAskOrder p q s) = mNewAskVolume s"
  "mNewBidVolume (InsertAskOrder p q s) = mNewBidVolume s"
  "mStartTime (InsertAskOrder p q s) = mStartTime s"
  by (simp_all add: InsertAskOrder_def Let_def)

lemma frame_InsertBidOrder [simp]:
  "mAskId (InsertBidOrder p q s) = mAskId s" "mAskPrice (InsertBidOrder p q s) = mAskPrice s"
  "mAskVolume (InsertBidOrder p q s) = mAskVolume s"
  "mPosition (InsertBidOrder p q s) = mPosition s"
  "mHedgePosition (InsertBidOrder p q s) = mHedgePosition s"
  "mNewAskVolume (InsertBidOrder p q s) = mNewAskVolume s"
  "mNewBidVolume (InsertBidOrder p q s) = mNewBidVolume s"
  "mStartTime (InsertBidOrder p q s) = mStartTime s"
  by (simp_all add: InsertBidOrder_def Let_def)

lemma frame_HedgeOrder [simp]:
  "mAskId (HedgeOrder v s) = mAskId s" "mAskPrice (HedgeOrder v s) = mAskPrice s"
  "mAskVolume (HedgeOrder v s) = mAskVolume s"
  "mBidId (HedgeOrder v s) = mBidId s" "mBidPrice (HedgeOrder v s) = mBidPrice s"
  "mBidVolume (HedgeOrder v s) = mBidVolume s"
  "mPosition (HedgeOrder v s) = mPosition s"
  "mNewAskVolume (HedgeOrder v s) = mNewAskVolume s"
  "mNewBidVolume (HedgeOrder v s) = mNewBidVolume s"
  "mStartTime (HedgeOrder v s) = mStartTime s"
  by (simp_all add: HedgeOrder_def Let_def)

lemma ask_requote_noop:
  "mAskId s \<noteq> 0 \<Longrightarrow> p = mAskPrice s \<Longrightarrow> InsertAskOrder p q (CancelAskOrder p s) = s"
  by (simp add: CancelAskOrder_def InsertAskOrder_def Let_def)

lemma bid_requote_noop:
  "mBidId s \<noteq> 0 \<Longrightarrow> p = mBidPrice s \<Longrightarrow> InsertBidOrder p q (CancelBidOrder p s) = s"
  by (simp add: CancelBidOrder_def InsertBidOrder_def Let_def)

text \<open>What a book update of the quoted instrument emits: the ask side's requests, the
  bid side's, then at most one hedge.\<close>

lemma emitted_OrderBookMessageHandler:
  "\<exists>ca ia cb ib h.
     emitted s (OrderBookMessageHandler v now1 now2 FUTURE n ap av bp bv s) = ca @ ia @ cb @ ib @ h \<and>
     ca = (if mAskId s \<noteq> 0 \<and> ap ! 0 \<noteq> 0 \<and> ap ! 0 \<noteq> mAskPrice s
           then [SendCancelOrder (mAskId s)] else []) \<and>
     (ia = [] \<or> (\<exists>i vol. ia = [SendInsertOrder i SELL (ap ! 0) vol GOOD_FOR_DAY] \<and>
        (mAskId s = 0 \<or> ca \<noteq> []))) \<and>
     cb = (if mBidId s \<noteq> 0 \<and> bp ! 0 \<noteq> 0 \<and> bp ! 0 \<noteq> mBidPrice s
           then [SendCancelOrder (mBidId s)] else []) \<and>
     (ib = [] \<or> (\<exists>i vol. ib = [SendInsertOrder i BUY (bp ! 0) vol GOOD_FOR_DAY] \<and>
        (mBidId s = 0 \<or> cb \<noteq> []))) \<and>
     (h = [] \<or> (\<exists>i sd p vol. h = [SendHedgeOrder i sd p vol]))"
proof -
  let ?s1 = "CancelAskOrder (ap ! 0) s"
  let ?s2 = "InsertAskOrder (ap ! 0) (mNewAskVolume ?s1) ?s1"
  let ?s3 = "CancelBidOrder (bp ! 0) ?s2"
  let ?s4 = "InsertBidOrder (bp ! 0) (mNewBidVolume ?s3) ?s3"
  let ?ca = "if mAskId s \<noteq> 0 \<and> ap ! 0 \<noteq> 0 \<and> ap ! 0 \<noteq> mAskPrice s
           then [SendCancelOrder (mAskId s)] else []"
  let ?cb = "if mBidId s \<noteq> 0 \<and> bp ! 0 \<noteq> 0 \<and> bp ! 0 \<noteq> mBidPrice s
           then [SendCancelOrder (mBidId s)] else []"
  have o1: "outbox ?s1 = outbox s @ ?ca" by (rule outbox_CancelAskOrder)
  have "\<exists>ia. outbox ?s2 = outbox ?s1 @ ia \<and>
     (ia = [] \<or> (\<exists>i vol. ia = [SendInsertOrder i SELL (ap ! 0) vol GOOD_FOR_DAY] \<and>
        (mAskId s = 0 \<or> ?ca \<noteq> [])))"
    by (simp add: InsertAskOrder_def Let_def CancelAskOrder_def)
  then obtain ia where o2: "outbox ?s2 = outbox ?s1 @ ia"
    and ia: "ia = [] \<or> (\<exists>i vol. ia = [SendInsertOrder i SELL (ap ! 0) vol GOOD_FOR_DAY] \<and>
        (mAskId s = 0 \<or> ?ca \<noteq> []))" by blast
  have o3: "outbox ?s3 = outbox ?s2 @ ?cb" by (simp add: outbox_CancelBidOrder)
  have "\<exists>ib. outbox ?s4 = outbox ?s3 @ ib \<and>
     (ib = [] \<or> (\<exists>i vol. ib = [SendInsertOrder i BUY (bp ! 0) vol GOOD_FOR_DAY] \<and>
        (mBidId s = 0 \<or> ?cb \<noteq> [])))"
    by (simp add: InsertBidOrder_def Let_def CancelBidOrder_def)
  then obtain ib where o4: "outbox ?s4 = outbox ?s3 @ ib"
    and ib: "ib = [] \<or> (\<exists>i vol. ib = [SendInsertOrder i BUY (bp ! 0) vol GOOD_FOR_DAY] \<and>
        (mBidId s = 0 \<or> ?cb \<noteq> []))" by blast
  obtain h0 where o5: "outbox (HedgeOrder v ?s4) = outbox ?s4 @ h0"
    and h0: "h0 = [] \<or> (\<exists>i sd p vol. h0 = [SendHedgeOrder i sd p vol])"
    using outbox_HedgeOrder by blast
  have "\<exists>h. outbox (OrderBookMessageHandler v now1 now2 FUTURE n ap av bp bv s) = outbox ?s4 @ h
      \<and> (h = [] \<or> (\<exists>i sd p vol. h = [SendHedgeOrder i sd p vol]))"
    using o5 h0 by (simp add: OrderBookMessageHandler_def Let_def)
  then obtain h where o6: "outbox (OrderBookMessageHandler v now1 now2 FUTURE n ap av bp bv s) = outbox ?s4 @ h"
    and h: "h = [] \<or> (\<exists>i sd p vol. h = [SendHedgeOrder i sd p vol])" by blast
  have "emitted s (OrderBookMessageHandler v now1 now2 FUTURE n ap av bp bv s) = ?ca @ ia @ ?cb @ ib @ h"
    unfolding emitted_def o6 o4 o3 o2 o1 by simp
  then show ?thesis using ia ib h by blast
qed


section \<open>Updates of the hedging instrument\<close>

text \<open>
  C9. A book update for the hedging instrument (\<open>ETF\<close>) and a trade-tick callback (for
  either instrument) return the state they were given: no request is added to the
  outbox and no field changes.
\<close>

theorem hedging_instrument_updates_change_nothing:
  "OrderBookMessageHandler v now1 now2 ETF n ap av bp bv s = s \<and>
   emitted s (OrderBookMessageHandler v now1 now2 ETF n ap av bp bv s) = [] \<and>
   TradeTicksMessageHandler i n' ap' av' bp' bv' s = s \<and>
   emitted s (TradeTicksMessageHandler i n' ap' av' bp' bv' s) = []"
  by (simp add: OrderBookMessageHandler_def TradeTicksMessageHandler_def emitted_def)


section \<open>A book update at an unchanged price\<close>

text \<open>
  C8. On a book update of the quoted instrument: when an ask rests and the new ask price
  is its price, the ask side's cancel-then-insert pair returns the state unchanged, and
  the handler emits no sell insert and no cancel other than the bid's; the same holds
  with the sides exchanged; when both sides rest at the new prices the handler emits
  neither a cancel nor an insert.
\<close>

theorem unchanged_price_requotes_nothing:
  assumes "s' = OrderBookMessageHandler v now1 now2 FUTURE n ap av bp bv s"
  shows "(mAskId s \<noteq> 0 \<and> ap ! 0 = mAskPrice s \<longrightarrow>
            InsertAskOrder (ap ! 0) (mNewAskVolume s) (CancelAskOrder (ap ! 0) s) = s \<and>
            filter (is_insert_of SELL) (emitted s s') = [] \<and>
            set (filter is_cancel (emitted s s')) \<subseteq> {SendCancelOrder (mBidId s)}) \<and>
         (mBidId s \<noteq> 0 \<and> bp ! 0 = mBidPrice s \<longrightarrow>
            InsertBidOrder (bp ! 0) (mNewBidVolume s) (CancelBidOrder (bp ! 0) s) = s \<and>
            filter (is_insert_of BUY) (emitted s s') = [] \<and>
            set (filter is_cancel (emitted s s')) \<subseteq> {SendCancelOrder (mAskId s)}) \<and>
         (mAskId s \<noteq> 0 \<and> ap ! 0 = mAskPrice s \<and> mBidId s \<noteq> 0 \<and> bp ! 0 = mBidPrice s \<longrightarrow>
            filter is_insert (emitted s s') = [] \<and> filter is_cancel (emitted s s') = [])"
proof -
  obtain ca ia cb ib h where
    em: "emitted s s' = ca @ ia @ cb @ ib @ h"
    and ca: "ca = (if mAskId s \<noteq> 0 \<and> ap ! 0 \<noteq> 0 \<and> ap ! 0 \<noteq> mAskPrice s
                   then [SendCancelOrder (mAskId s)] else [])"
    and ia: "ia = [] \<or> (\<exists>i vol. ia = [SendInsertOrder i SELL (ap ! 0) vol GOOD_FOR_DAY] \<and>
                   (mAskId s = 0 \<or> ca \<noteq> []))"
    and cb: "cb = (if mBidId s \<noteq> 0 \<and> bp ! 0 \<noteq> 0 \<and> bp ! 0 \<noteq> mBidPrice s
                   then [SendCancelOrder (mBidId s)] else [])"
    and ib: "ib = [] \<or> (\<exists>i vol. ib = [SendInsertOrder i BUY (bp ! 0) vol GOOD_FOR_DAY] \<and>
                   (mBidId s = 0 \<or> cb \<noteq> []))"
    and h: "h = [] \<or> (\<exists>i sd p vol. h = [SendHedgeOrder i sd p vol])"
    using emitted_OrderBookMessageHandler [of s v now1 now2 n ap av bp bv]
    unfolding assms by blast
  have ask: "ca = [] \<and> ia = []" if "mAskId s \<noteq> 0" "ap ! 0 = mAskPrice s"
    using that ca ia by auto
  have bid: "cb = [] \<and> ib = []" if "mBidId s \<noteq> 0" "bp ! 0 = mBidPrice s"
    using that cb ib by auto
  have a: "filter (is_insert_of SELL) (emitted s s') = [] \<and>
           set (filter is_cancel (emitted s s')) \<subseteq> {SendCancelOrder (mBidId s)}"
    if "mAskId s \<noteq> 0" "ap ! 0 = mAskPrice s"
    using ask [OF that] em cb ib h by (auto split: if_splits)
  have b: "filter (is_insert_of BUY) (emitted s s') = [] \<and>
           set (filter is_cancel (emitted s s')) \<subseteq> {SendCancelOrder (mAskId s)}"
    if "mBidId s \<noteq> 0" "bp ! 0 = mBidPrice s"
    using bid [OF that] em ca ia h by (auto split: if_splits)
  have c: "filter is_insert (emitted s s') = [] \<and> filter is_cancel (emitted s s') = []"
    if "mAskId s \<noteq> 0" "ap ! 0 = mAskPrice s" "mBidId s \<noteq> 0" "bp ! 0 = mBidPrice s"
    using ask [OF that(1,2)] bid [OF that(3,4)] em h by auto
  show ?thesis
    using a b c by (simp add: ask_requote_noop bid_requote_noop)
qed

text \<open>An ask of 50 lots rests at 10000 and a bid at 9900; the book moves to 10000 and
  9800: the bid is cancelled and replaced, the ask side is silent.\<close>

theorem unchanged_price_requotes_nothing_witness:
  "mAskId (initial 50 50 0\<lparr>mAskId := 1, mAskPrice := 10000, mAskVolume := 50, mBidId := 2,
      mBidPrice := 9900, mBidVolume := 50, mNextMessageId := 3, mAsks := {1}, mBids := {2}\<rparr>) \<noteq> 0 \<and>
   [10000, 10100] ! 0 = mAskPrice (initial 50 50 0\<lparr>mAskId := 1, mAskPrice := 10000,
      mAskVolume := 50, mBidId := 2, mBidPrice := 9900, mBidVolume := 50, mNextMessageId := 3,
      mAsks := {1}, mBids := {2}\<rparr>) \<and>
   filter (is_insert_of SELL) (emitted
        (initial 50 50 0\<lparr>mAskId := 1, mAskPrice := 10000, mAskVolume := 50, mBidId := 2,
           mBidPrice := 9900, mBidVolume := 50, mNextMessageId := 3, mAsks := {1}, mBids := {2}\<rparr>)
        (OrderBookMessageHandler \<lparr>MINIMUM_BID = 1, MAXIMUM_ASK = 2147483647\<rparr> 5 5 FUTURE 2
           [10000, 10100] [7, 9] [9800, 9700] [4, 6]
           (initial 50 50 0\<lparr>mAskId := 1, mAskPrice := 10000, mAskVolume := 50, mBidId := 2,
              mBidPrice := 9900, mBidVolume := 50, mNextMessageId := 3, mAsks := {1},
              mBids := {2}\<rparr>))) = [] \<and>
   set (filter is_cancel (emitted
        (initial 50 50 0\<lparr>mAskId := 1, mAskPrice := 10000, mAskVolume := 50, mBidId := 2,
           mBidPrice := 9900, mBidVolume := 50, mNextMessageId := 3, mAsks := {1}, mBids := {2}\<rparr>)
        (OrderBookMessageHandler \<lparr>MINIMUM_BID = 1, MAXIMUM_ASK = 2147483647\<rparr> 5 5 FUTURE 2
           [10000, 10100] [7, 9] [9800, 9700] [4, 6]
           (initial 50 50 0\<lparr>mAskId := 1, mAskPrice := 10000, mAskVolume := 50, mBidId := 2,
              mBidPrice := 9900, mBidVolume := 50, mNextMessageId := 3, mAsks := {1},
              mBids := {2}\<rparr>)))) \<subseteq> {SendCancelOrder 2}"
  using unchanged_price_requotes_nothing
    [OF refl, where s = "initial 50 50 0\<lparr>mAskId := 1, mAskPrice := 10000, mAskVolume := 50,
           mBidId := 2, mBidPrice := 9900, mBidVolume := 50, mNextMessageId := 3, mAsks := {1},
           mBids := {2}\<rparr>"
       and ap = "[10000, 10100]" and bp = "[9800, 9700]"
       and v = "\<lparr>MINIMUM_BID = 1, MAXIMUM_ASK = 2147483647\<rparr>" and ?now1.0 = 5 and ?now2.0 = 5
       and n = 2 and av = "[7, 9]" and bv = "[4, 6]"]
  by (simp add: initial_def)


section \<open>The hedge order\<close>

lemma frame_quoted [simp]:
  "mPosition (quoted a b s) = mPosition s"
  "mHedgePosition (quoted a b s) = mHedgePosition s"
  "mStartTime (quoted a b s) = mStartTime s"
  "mNewAskVolume (quoted a b s) = mNewAskVolume s"
  "mNewBidVolume (quoted a b s) = mNewBidVolume s"
  by (simp_all add: quoted_def Let_def)

lemma in_tolerance_quoted [simp]: "in_tolerance (quoted a b s) = in_tolerance s"
  by (simp add: in_tolerance_def)

lemma OrderBookMessageHandler_quoted:
  "OrderBookMessageHandler v now1 now2 FUTURE n ap av bp bv s =
     (if in_tolerance s then (quoted (ap ! 0) (bp ! 0) s)\<lparr>mStartTime := now1\<rparr>
      else if UNHEDGED_LOTS_TIME_LIMIT \<le> elapsed_ms now1 (mStartTime s)
      then (HedgeOrder v (quoted (ap ! 0) (bp ! 0) s))\<lparr>mStartTime := now2\<rparr>
      else quoted (ap ! 0) (bp ! 0) s)"
  by (simp add: OrderBookMessageHandler_def quoted_def Let_def in_tolerance_def)

lemma outbox_quoted:
  "\<exists>xs. outbox (quoted a b s) = outbox s @ xs \<and> filter is_hedge xs = []"
proof -
  let ?s1 = "CancelAskOrder a s"
  let ?s2 = "InsertAskOrder a (mNewAskVolume ?s1) ?s1"
  let ?s3 = "CancelBidOrder b ?s2"
  obtain ia where ia: "outbox ?s2 = outbox ?s1 @ ia" "filter is_hedge ia = []"
    using outbox_InsertAskOrder [of a "mNewAskVolume ?s1" ?s1] by auto
  obtain ib where ib: "outbox (InsertBidOrder b (mNewBidVolume ?s3) ?s3) = outbox ?s3 @ ib"
    "filter is_hedge ib = []"
    using outbox_InsertBidOrder [of b "mNewBidVolume ?s3" ?s3] by auto
  show ?thesis
    unfolding quoted_def Let_def ib(1) outbox_CancelBidOrder ia(1) outbox_CancelAskOrder
    using ia(2) ib(2) by simp
qed

lemma hedge_sell:
  assumes "sint (mPosition s + mHedgePosition s) = sint MAX_UNHEDGED_LOTS + k" "0 < k"
  shows "HedgeOrder v s = s\<lparr>outbox := outbox s @
                   [SendHedgeOrder (mNextMessageId s) SELL
                      (word_of_int (MIN_BID_NEAREST_TICK v)) (word_of_int k)],
                 mNextMessageId := mNextMessageId s + 1,
                 mHedgePosition := mHedgePosition s - word_of_int k\<rparr>"
proof -
  have lt: "MAX_UNHEDGED_LOTS <s mPosition s + mHedgePosition s"
    using assms by (simp add: word_sless_alt)
  have "word_of_int (sint (mPosition s + mHedgePosition s)) =
        (word_of_int (sint MAX_UNHEDGED_LOTS + k) :: 64 word)"
    using assms by simp
  then have "mPosition s + mHedgePosition s - MAX_UNHEDGED_LOTS = word_of_int k"
    by simp
  then show ?thesis using lt by (simp add: HedgeOrder_def Let_def)
qed

lemma hedge_buy:
  assumes "sint (mPosition s + mHedgePosition s) = - sint MAX_UNHEDGED_LOTS - k" "0 < k"
  shows "HedgeOrder v s = s\<lparr>outbox := outbox s @
                   [SendHedgeOrder (mNextMessageId s) BUY
                      (word_of_int (MAX_ASK_NEAREST_TICK v)) (word_of_int k)],
                 mNextMessageId := mNextMessageId s + 1,
                 mHedgePosition := mHedgePosition s + word_of_int k\<rparr>"
proof -
  have lt: "mPosition s + mHedgePosition s <s - MAX_UNHEDGED_LOTS"
    using assms by (simp add: word_sless_alt MAX_UNHEDGED_LOTS_def)
  have nlt: "\<not> MAX_UNHEDGED_LOTS <s mPosition s + mHedgePosition s"
    using assms by (simp add: word_sless_alt MAX_UNHEDGED_LOTS_def)
  have "word_of_int (sint (mPosition s + mHedgePosition s)) =
        (word_of_int (- sint MAX_UNHEDGED_LOTS - k) :: 64 word)"
    using assms by simp
  then have "- (mPosition s + mHedgePosition s + MAX_UNHEDGED_LOTS) = word_of_int k"
    by simp
  then show ?thesis using lt nlt by (simp add: HedgeOrder_def Let_def)
qed

lemma hedge_size_is_k:
  fixes x :: "64 word"
  assumes "sint x = c + k \<or> sint x = - c - k" "0 \<le> c" "0 < k"
  shows "uint (word_of_int k :: 64 word) = k"
proof -
  have "- (2 ^ 63) \<le> sint x" "sint x < 2 ^ 63"
    using sint_ge [of x] sint_lt [of x] by simp_all
  then have "k \<le> 2 ^ 63" using assms by auto
  then have "k < 2 ^ 64" by simp
  then show ?thesis using assms(3) by (simp add: uint_word_of_int take_bit_int_eq_self)
qed

text \<open>
  C3. When \<open>HedgeOrder\<close> runs with the combined exposure, read as a \<open>long\<close>, equal to
  \<open>MAX_UNHEDGED_LOTS + k\<close> for a positive \<open>k\<close>, it emits exactly one hedge sell, of
  volume \<open>k\<close>, and has subtracted \<open>k\<close> from \<open>mHedgePosition\<close> when it returns; with the
  exposure equal to \<open>- MAX_UNHEDGED_LOTS - k\<close> it emits exactly one hedge buy of volume
  \<open>k\<close> and has added \<open>k\<close>. A book update whose hedge evaluation fires (exposure outside
  the tolerance, timer expired) emits that hedge order and no other.
\<close>

theorem hedge_order_offsets_excess:
  "(sint (mPosition s + mHedgePosition s) = sint MAX_UNHEDGED_LOTS + k \<and> 0 < k \<longrightarrow>
      emitted s (HedgeOrder v s) =
        [SendHedgeOrder (mNextMessageId s) SELL (word_of_int (MIN_BID_NEAREST_TICK v))
           (word_of_int k)] \<and>
      uint (word_of_int k :: ulong) = k \<and>
      mHedgePosition (HedgeOrder v s) = mHedgePosition s - word_of_int k \<and>
      (\<not> in_tolerance s \<and> UNHEDGED_LOTS_TIME_LIMIT \<le> elapsed_ms now1 (mStartTime s) \<longrightarrow>
         filter is_hedge (emitted s (OrderBookMessageHandler v now1 now2 FUTURE n ap av bp bv s)) =
           [SendHedgeOrder (mNextMessageId (quoted (ap ! 0) (bp ! 0) s)) SELL
              (word_of_int (MIN_BID_NEAREST_TICK v)) (word_of_int k)] \<and>
         mHedgePosition (OrderBookMessageHandler v now1 now2 FUTURE n ap av bp bv s) =
           mHedgePosition s - word_of_int k)) \<and>
   (sint (mPosition s + mHedgePosition s) = - sint MAX_UNHEDGED_LOTS - k \<and> 0 < k \<longrightarrow>
      emitted s (HedgeOrder v s) =
        [SendHedgeOrder (mNextMessageId s) BUY (word_of_int (MAX_ASK_NEAREST_TICK v))
           (word_of_int k)] \<and>
      uint (word_of_int k :: ulong) = k \<and>
      mHedgePosition (HedgeOrder v s) = mHedgePosition s + word_of_int k \<and>
      (\<not> in_tolerance s \<and> UNHEDGED_LOTS_TIME_LIMIT \<le> elapsed_ms now1 (mStartTime s) \<longrightarrow>
         filter is_hedge (emitted s (OrderBookMessageHandler v now1 now2 FUTURE n ap av bp bv s)) =
           [SendHedgeOrder (mNextMessageId (quoted (ap ! 0) (bp ! 0) s)) BUY
              (word_of_int (MAX_ASK_NEAREST_TICK v)) (word_of_int k)] \<and>
         mHedgePosition (OrderBookMessageHandler v now1 now2 FUTURE n ap av bp bv s) =
           mHedgePosition s + word_of_int k))"
proof -
  let ?q = "quoted (ap ! 0) (bp ! 0) s"
  obtain xs where xs: "outbox ?q = outbox s @ xs" "filter is_hedge xs = []"
    using outbox_quoted by blast
  have c0: "(0::int) \<le> sint MAX_UNHEDGED_LOTS" by (simp add: MAX_UNHEDGED_LOTS_def)
  have sell: ?thesis if h: "sint (mPosition s + mHedgePosition s) = sint MAX_UNHEDGED_LOTS + k" "0 < k"
  proof -
    have hq: "sint (mPosition ?q + mHedgePosition ?q) = sint MAX_UNHEDGED_LOTS + k"
      using h by simp
    have "\<not> (sint (mPosition s + mHedgePosition s) = - sint MAX_UNHEDGED_LOTS - k)"
      using h by (simp add: MAX_UNHEDGED_LOTS_def)
    then show ?thesis
      using h hedge_size_is_k [of "mPosition s + mHedgePosition s" "sint MAX_UNHEDGED_LOTS" k] c0
      by (simp add: hedge_sell [OF h] hedge_sell [OF hq h(2)] emitted_def
          OrderBookMessageHandler_quoted xs)
  qed
  have buy: ?thesis if h: "sint (mPosition s + mHedgePosition s) = - sint MAX_UNHEDGED_LOTS - k" "0 < k"
  proof -
    have hq: "sint (mPosition ?q + mHedgePosition ?q) = - sint MAX_UNHEDGED_LOTS - k"
      using h by simp
    have "\<not> (sint (mPosition s + mHedgePosition s) = sint MAX_UNHEDGED_LOTS + k)"
      using h by (simp add: MAX_UNHEDGED_LOTS_def)
    then show ?thesis
      using h hedge_size_is_k [of "mPosition s + mHedgePosition s" "sint MAX_UNHEDGED_LOTS" k] c0
      by (simp add: hedge_buy [OF h] hedge_buy [OF hq h(2)] emitted_def
          OrderBookMessageHandler_quoted xs)
  qed
  show ?thesis
  proof (cases "0 < k")
    case True
    then show ?thesis using sell buy by blast
  next
    case False
    then show ?thesis by simp
  qed
qed


text \<open>A position of 50 (or of -50) with nothing hedged is 40 lots beyond the tolerance;
  the timer was started at 0 and the book update arrives 60 seconds later.\<close>

theorem hedge_order_offsets_excess_witness:
  "sint (mPosition (initial 50 50 0\<lparr>mPosition := 50\<rparr>) +
         mHedgePosition (initial 50 50 0\<lparr>mPosition := 50\<rparr>)) = sint MAX_UNHEDGED_LOTS + 40 \<and>
   (0::int) < 40 \<and>
   emitted (initial 50 50 0\<lparr>mPosition := 50\<rparr>)
     (HedgeOrder \<lparr>MINIMUM_BID = 1, MAXIMUM_ASK = 2147483647\<rparr> (initial 50 50 0\<lparr>mPosition := 50\<rparr>)) =
     [SendHedgeOrder 1 SELL 100 40] \<and>
   mHedgePosition
     (HedgeOrder \<lparr>MINIMUM_BID = 1, MAXIMUM_ASK = 2147483647\<rparr> (initial 50 50 0\<lparr>mPosition := 50\<rparr>)) =
     - 40 \<and>
   \<not> in_tolerance (initial 50 50 0\<lparr>mPosition := 50\<rparr>) \<and>
   UNHEDGED_LOTS_TIME_LIMIT \<le> elapsed_ms 60000000000 (mStartTime (initial 50 50 0\<lparr>mPosition := 50\<rparr>)) \<and>
   filter is_hedge (emitted (initial 50 50 0\<lparr>mPosition := 50\<rparr>)
     (OrderBookMessageHandler \<lparr>MINIMUM_BID = 1, MAXIMUM_ASK = 2147483647\<rparr> 60000000000 60000000001
        FUTURE 9 [10000] [5] [9900] [5] (initial 50 50 0\<lparr>mPosition := 50\<rparr>))) =
     [SendHedgeOrder 3 SELL 100 40] \<and>
   sint (mPosition (initial 50 50 0\<lparr>mPosition := - 50\<rparr>) +
         mHedgePosition (initial 50 50 0\<lparr>mPosition := - 50\<rparr>)) = - sint MAX_UNHEDGED_LOTS - 40 \<and>
   emitted (initial 50 50 0\<lparr>mPosition := - 50\<rparr>)
     (HedgeOrder \<lparr>MINIMUM_BID = 1, MAXIMUM_ASK = 2147483647\<rparr> (initial 50 50 0\<lparr>mPosition := - 50\<rparr>)) =
     [SendHedgeOrder 1 BUY 2147483600 40] \<and>
   mHedgePosition
     (HedgeOrder \<lparr>MINIMUM_BID = 1, MAXIMUM_ASK = 2147483647\<rparr> (initial 50 50 0\<lparr>mPosition := - 50\<rparr>)) =
     40"
  using hedge_order_offsets_excess
    [where s = "initial 50 50 0\<lparr>mPosition := 50\<rparr>" and k = 40
       and v = "\<lparr>MINIMUM_BID = 1, MAXIMUM_ASK = 2147483647\<rparr>"
       and ?now1.0 = 60000000000 and ?now2.0 = 60000000001 and n = 9
       and ap = "[10000]" and av = "[5]" and bp = "[9900]" and bv = "[5]"]
    hedge_order_offsets_excess
    [where s = "initial 50 50 0\<lparr>mPosition := - 50\<rparr>" and k = 40
       and v = "\<lparr>MINIMUM_BID = 1, MAXIMUM_ASK = 2147483647\<rparr>"
       and ?now1.0 = 60000000000 and ?now2.0 = 60000000001 and n = 9
       and ap = "[10000]" and av = "[5]" and bp = "[9900]" and bv = "[5]"]
  by (simp add: initial_def MAX_UNHEDGED_LOTS_def in_tolerance_def std_abs_long_def
      UNHEDGED_LOTS_TIME_LIMIT_def elapsed_ms_def quoted_def CancelAskOrder_def CancelBidOrder_def
      InsertAskOrder_def InsertBidOrder_def Let_def std_min_long_def POSITION_LIMIT_def
      MIN_BID_NEAREST_TICK_def MAX_ASK_NEAREST_TICK_def TICK_SIZE_IN_CENTS_def
      word_sless_alt word_sle_eq)

section \<open>Terminal events\<close>

text \<open>
  C6. Let \<open>X\<close> be an order identifier (not the sentinel 0) and let the two slots not hold
  the same order. A status update for \<open>X\<close> with remaining volume 0 leaves \<open>X\<close> in neither
  live-order set, and resets the identifier and the volume of the slot \<open>X\<close> occupied. An
  error callback for \<open>X\<close> while \<open>X\<close> is in one of the live-order sets returns the very
  state such a status update returns, whatever fill volume and fees the update carries.
\<close>

theorem terminal_event_retires_order:
  assumes "X \<noteq> 0" and "mAskId s \<noteq> mBidId s \<or> mAskId s = 0"
  shows "X \<notin> mAsks (OrderStatusMessageHandler X f 0 fees s) \<and>
         X \<notin> mBids (OrderStatusMessageHandler X f 0 fees s) \<and>
         (X = mAskId s \<longrightarrow>
            mAskId (OrderStatusMessageHandler X f 0 fees s) = 0 \<and>
            mAskVolume (OrderStatusMessageHandler X f 0 fees s) = 0) \<and>
         (X = mBidId s \<longrightarrow>
            mBidId (OrderStatusMessageHandler X f 0 fees s) = 0 \<and>
            mBidVolume (OrderStatusMessageHandler X f 0 fees s) = 0) \<and>
         (X \<in> mAsks s \<or> X \<in> mBids s \<longrightarrow>
            ErrorMessageHandler X msg s = OrderStatusMessageHandler X f 0 fees s)"
  using assms
  by (auto simp add: OrderStatusMessageHandler_def ErrorMessageHandler_def Let_def)

text \<open>Bid 2 rests with 50 lots next to ask 1; the exchange rejects it.\<close>

theorem terminal_event_retires_order_witness:
  "(2::ulong) \<noteq> 0 \<and>
   mAskId (initial 50 50 0\<lparr>mAskId := 1, mAskPrice := 10000, mAskVolume := 50, mBidId := 2,
      mBidPrice := 9900, mBidVolume := 50, mNextMessageId := 3, mAsks := {1}, mBids := {2}\<rparr>) \<noteq>
   mBidId (initial 50 50 0\<lparr>mAskId := 1, mAskPrice := 10000, mAskVolume := 50, mBidId := 2,
      mBidPrice := 9900, mBidVolume := 50, mNextMessageId := 3, mAsks := {1}, mBids := {2}\<rparr>) \<and>
   2 \<in> mBids (initial 50 50 0\<lparr>mAskId := 1, mAskPrice := 10000, mAskVolume := 50, mBidId := 2,
      mBidPrice := 9900, mBidVolume := 50, mNextMessageId := 3, mAsks := {1}, mBids := {2}\<rparr>) \<and>
   ErrorMessageHandler 2 ''rejected''
     (initial 50 50 0\<lparr>mAskId := 1, mAskPrice := 10000, mAskVolume := 50, mBidId := 2,
        mBidPrice := 9900, mBidVolume := 50, mNextMessageId := 3, mAsks := {1}, mBids := {2}\<rparr>) =
   OrderStatusMessageHandler 2 7 0 3
     (initial 50 50 0\<lparr>mAskId := 1, mAskPrice := 10000, mAskVolume := 50, mBidId := 2,
        mBidPrice := 9900, mBidVolume := 50, mNextMessageId := 3, mAsks := {1}, mBids := {2}\<rparr>) \<and>
   OrderStatusMessageHandler 2 7 0 3
     (initial 50 50 0\<lparr>mAskId := 1, mAskPrice := 10000, mAskVolume := 50, mBidId := 2,
        mBidPrice := 9900, mBidVolume := 50, mNextMessageId := 3, mAsks := {1}, mBids := {2}\<rparr>) =
   initial 50 50 0\<lparr>mAskId := 1, mAskPrice := 10000, mAskVolume := 50, mBidId := 0,
      mBidPrice := 9900, mBidVolume := 0, mNextMessageId := 3, mAsks := {1}, mBids := {}\<rparr>"
  using terminal_event_retires_order
    [where X = 2 and f = 7 and fees = 3 and msg = "''rejected''"
       and s = "initial 50 50 0\<lparr>mAskId := 1, mAskPrice := 10000, mAskVolume := 50, mBidId := 2,
         mBidPrice := 9900, mBidVolume := 50, mNextMessageId := 3, mAsks := {1}, mBids := {2}\<rparr>"]
  by (simp add: initial_def OrderStatusMessageHandler_def)

section \<open>Cancelling keeps the price and the volume\<close>

lemma book_update_ask_fields:
  "mAskId (OrderBookMessageHandler v now1 now2 FUTURE n ap av bp bv s) =
     mAskId (InsertAskOrder (ap ! 0) (mNewAskVolume s) (CancelAskOrder (ap ! 0) s)) \<and>
   mAskVolume (OrderBookMessageHandler v now1 now2 FUTURE n ap av bp bv s) =
     mAskVolume (InsertAskOrder (ap ! 0) (mNewAskVolume s) (CancelAskOrder (ap ! 0) s))"
  by (simp add: OrderBookMessageHandler_def Let_def)

lemma book_update_bid_fields:
  "mBidId (OrderBookMessageHandler v now1 now2 FUTURE n ap av bp bv s) =
     mBidId (InsertBidOrder (bp ! 0) (mNewBidVolume s) (CancelBidOrder (bp ! 0)
       (InsertAskOrder (ap ! 0) (mNewAskVolume s) (CancelAskOrder (ap ! 0) s)))) \<and>
   mBidVolume (OrderBookMessageHandler v now1 now2 FUTURE n ap av bp bv s) =
     mBidVolume (InsertBidOrder (bp ! 0) (mNewBidVolume s) (CancelBidOrder (bp ! 0)
       (InsertAskOrder (ap ! 0) (mNewAskVolume s) (CancelAskOrder (ap ! 0) s))))"
  by (simp add: OrderBookMessageHandler_def Let_def)

lemma cancelled_ask_volume_stays:
  assumes "mAskId s = 0" and "\<not> status_of_none e"
  shows "(mAskId (handle v e s) = 0 \<and> mAskVolume (handle v e s) = mAskVolume s) \<or>
         filter (is_insert_of SELL) (emitted s (handle v e s)) \<noteq> []"
proof (cases e)
  case (OrderBookMessage now1 now2 i n ap av bp bv)
  show ?thesis
  proof (cases i)
    case FUTURE
    let ?s2 = "InsertAskOrder (ap ! 0) (mNewAskVolume s) s"
    have c: "CancelAskOrder (ap ! 0) s = s"
      using assms(1) by (simp add: CancelAskOrder_def)
    show ?thesis
    proof (cases "?s2 = s")
      case True
      then show ?thesis
        using assms(1) OrderBookMessage FUTURE book_update_ask_fields [of v now1 now2 n ap av bp bv s]
        by (simp add: c)
    next
      case False
      then obtain vol where ins: "outbox ?s2 = outbox s @
          [SendInsertOrder (mNextMessageId s) SELL (ap ! 0) vol GOOD_FOR_DAY]"
        by (auto simp add: InsertAskOrder_def Let_def split: if_splits)
      let ?s3 = "CancelBidOrder (bp ! 0) ?s2"
      let ?s4 = "InsertBidOrder (bp ! 0) (mNewBidVolume s) ?s3"
      obtain ib where ib: "outbox ?s4 = outbox ?s3 @ ib"
        using outbox_InsertBidOrder [of "bp ! 0" "mNewBidVolume s" ?s3] by blast
      obtain h where h: "outbox (HedgeOrder v ?s4) = outbox ?s4 @ h"
        using outbox_HedgeOrder [of v ?s4] by blast
      have "\<exists>ws. outbox (OrderBookMessageHandler v now1 now2 FUTURE n ap av bp bv s) =
              outbox ?s2 @ ws"
        by (simp add: OrderBookMessageHandler_def Let_def c h ib outbox_CancelBidOrder)
      then show ?thesis
        using ins OrderBookMessage FUTURE by (auto simp add: emitted_def)
    qed
  next
    case ETF
    then show ?thesis using assms(1) OrderBookMessage
      by (simp add: OrderBookMessageHandler_def)
  qed
next
  case (OrderFilledMessage c p vol)
  then show ?thesis using assms(1) by (simp add: OrderFilledMessageHandler_def Let_def)
next
  case (OrderStatusMessage c f r fees)
  then have "c \<noteq> 0" using assms(2) by auto
  then show ?thesis using assms(1) OrderStatusMessage
    by (simp add: OrderStatusMessageHandler_def Let_def)
next
  case (ErrorMessage c m)
  then show ?thesis using assms(1)
    by (simp add: ErrorMessageHandler_def OrderStatusMessageHandler_def Let_def)
next
  case (HedgeFilledMessage c p vol)
  then show ?thesis using assms(1) by (simp add: HedgeFilledMessageHandler_def)
next
  case (TradeTicksMessage i n ap av bp bv)
  then show ?thesis using assms(1) by (simp add: TradeTicksMessageHandler_def)
qed


lemma cancelled_bid_volume_stays:
  assumes "mBidId s = 0" and "\<not> status_of_none e"
  shows "(mBidId (handle v e s) = 0 \<and> mBidVolume (handle v e s) = mBidVolume s) \<or>
         filter (is_insert_of BUY) (emitted s (handle v e s)) \<noteq> []"
proof (cases e)
  case (OrderBookMessage now1 now2 i n ap av bp bv)
  show ?thesis
  proof (cases i)
    case FUTURE
    let ?s2 = "InsertAskOrder (ap ! 0) (mNewAskVolume s) (CancelAskOrder (ap ! 0) s)"
    let ?s4 = "InsertBidOrder (bp ! 0) (mNewBidVolume s) ?s2"
    have c: "CancelBidOrder (bp ! 0) ?s2 = ?s2"
      using assms(1) by (simp add: CancelBidOrder_def)
    show ?thesis
    proof (cases "?s4 = ?s2")
      case True
      then show ?thesis
        using assms(1) OrderBookMessage FUTURE book_update_bid_fields [of v now1 now2 n ap av bp bv s]
        by (simp add: c)
    next
      case False
      obtain xs where xs: "outbox ?s2 = outbox s @ xs"
        using outbox_InsertAskOrder [of "ap ! 0" "mNewAskVolume s" "CancelAskOrder (ap ! 0) s"]
        by (auto simp add: outbox_CancelAskOrder)
      from False obtain i vol where ins: "outbox ?s4 = outbox ?s2 @
          [SendInsertOrder i BUY (bp ! 0) vol GOOD_FOR_DAY]"
        by (auto simp add: InsertBidOrder_def Let_def split: if_splits)
      obtain h where h: "outbox (HedgeOrder v ?s4) = outbox ?s4 @ h"
        using outbox_HedgeOrder [of v ?s4] by blast
      have "\<exists>ws. outbox (OrderBookMessageHandler v now1 now2 FUTURE n ap av bp bv s) =
              outbox ?s4 @ ws"
        by (simp add: OrderBookMessageHandler_def Let_def c h)
      then show ?thesis
        using ins xs OrderBookMessage FUTURE by (auto simp add: emitted_def)
    qed
  next
    case ETF
    then show ?thesis using assms(1) OrderBookMessage
      by (simp add: OrderBookMessageHandler_def)
  qed
next
  case (OrderFilledMessage c p vol)
  then show ?thesis using assms(1) by (simp add: OrderFilledMessageHandler_def Let_def)
next
  case (OrderStatusMessage c f r fees)
  then have "c \<noteq> 0" using assms(2) by auto
  then show ?thesis using assms(1) OrderStatusMessage
    by (simp add: OrderStatusMessageHandler_def Let_def)
next
  case (ErrorMessage c m)
  then show ?thesis using assms(1)
    by (simp add: ErrorMessageHandler_def OrderStatusMessageHandler_def Let_def)
next
  case (HedgeFilledMessage c p vol)
  then show ?thesis using assms(1) by (simp add: HedgeFilledMessageHandler_def)
next
  case (TradeTicksMessage i n ap av bp bv)
  then show ?thesis using assms(1) by (simp add: TradeTicksMessageHandler_def)
qed

lemma outbox_handle: "\<exists>xs. outbox (handle v e s) = outbox s @ xs"
proof (cases e)
  case (OrderBookMessage now1 now2 i n ap av bp bv)
  show ?thesis
  proof (cases i)
    case FUTURE
    obtain xs where "outbox (quoted (ap ! 0) (bp ! 0) s) = outbox s @ xs"
      using outbox_quoted by blast
    moreover obtain h where "outbox (HedgeOrder v (quoted (ap ! 0) (bp ! 0) s)) =
        outbox (quoted (ap ! 0) (bp ! 0) s) @ h"
      using outbox_HedgeOrder by blast
    ultimately show ?thesis
      using OrderBookMessage FUTURE by (simp add: OrderBookMessageHandler_quoted)
  next
    case ETF
    then show ?thesis using OrderBookMessage by (simp add: OrderBookMessageHandler_def)
  qed
next
  case (OrderFilledMessage c p vol)
  then show ?thesis by (simp add: OrderFilledMessageHandler_def Let_def)
next
  case (OrderStatusMessage c f r fees)
  then show ?thesis by (simp add: OrderStatusMessageHandler_def Let_def)
next
  case (ErrorMessage c m)
  then show ?thesis by (simp add: ErrorMessageHandler_def OrderStatusMessageHandler_def Let_def)
next
  case (HedgeFilledMessage c p vol)
  then show ?thesis by (simp add: HedgeFilledMessageHandler_def)
next
  case (TradeTicksMessage i n ap av bp bv)
  then show ?thesis by (simp add: TradeTicksMessageHandler_def)
qed

lemma outbox_run: "\<exists>xs. outbox (run v es s) = outbox s @ xs"
proof (induction es arbitrary: s)
  case Nil
  then show ?case by simp
next
  case (Cons e es)
  obtain xs where "outbox (handle v e s) = outbox s @ xs" using outbox_handle by blast
  moreover obtain ys where "outbox (run v es (handle v e s)) = outbox (handle v e s) @ ys"
    using Cons.IH by blast
  ultimately show ?case by simp
qed

lemma emitted_append:
  assumes "outbox s' = outbox s @ xs" "outbox s'' = outbox s' @ ys"
  shows "emitted s s'' = emitted s s' @ emitted s' s''"
  using assms by (simp add: emitted_def)

lemma emitted_run_Cons:
  "emitted s (run v es (handle v e s)) =
     emitted s (handle v e s) @ emitted (handle v e s) (run v es (handle v e s))"
proof -
  obtain xs where xs: "outbox (handle v e s) = outbox s @ xs" using outbox_handle by blast
  obtain ys where ys: "outbox (run v es (handle v e s)) = outbox (handle v e s) @ ys"
    using outbox_run by blast
  show ?thesis by (rule emitted_append [OF xs ys])
qed

lemma cancelled_ask_volume_stays_run:
  assumes "mAskId s = 0" and "\<not> list_ex status_of_none es"
  shows "(mAskId (run v es s) = 0 \<and> mAskVolume (run v es s) = mAskVolume s) \<or>
         filter (is_insert_of SELL) (emitted s (run v es s)) \<noteq> []"
  using assms
proof (induction es arbitrary: s)
  case Nil
  then show ?case by simp
next
  case (Cons e es)
  then have e: "\<not> status_of_none e" and es: "\<not> list_ex status_of_none es" by simp_all
  from cancelled_ask_volume_stays [OF Cons.prems(1) e, of v]
  show ?case
  proof
    assume a: "mAskId (handle v e s) = 0 \<and> mAskVolume (handle v e s) = mAskVolume s"
    then show ?thesis
      using Cons.IH [of "handle v e s", OF _ es] emitted_run_Cons [of s v es e] by auto
  next
    assume "filter (is_insert_of SELL) (emitted s (handle v e s)) \<noteq> []"
    then show ?thesis using emitted_run_Cons [of s v es e] by simp
  qed
qed

lemma cancelled_bid_volume_stays_run:
  assumes "mBidId s = 0" and "\<not> list_ex status_of_none es"
  shows "(mBidId (run v es s) = 0 \<and> mBidVolume (run v es s) = mBidVolume s) \<or>
         filter (is_insert_of BUY) (emitted s (run v es s)) \<noteq> []"
  using assms
proof (induction es arbitrary: s)
  case Nil
  then show ?case by simp
next
  case (Cons e es)
  then have e: "\<not> status_of_none e" and es: "\<not> list_ex status_of_none es" by simp_all
  from cancelled_bid_volume_stays [OF Cons.prems(1) e, of v]
  show ?case
  proof
    assume a: "mBidId (handle v e s) = 0 \<and> mBidVolume (handle v e s) = mBidVolume s"
    then show ?thesis
      using Cons.IH [of "handle v e s", OF _ es] emitted_run_Cons [of s v es e] by auto
  next
    assume "filter (is_insert_of BUY) (emitted s (handle v e s)) \<noteq> []"
    then show ?thesis using emitted_run_Cons [of s v es e] by simp
  qed
qed

text \<open>
  C10. A \<open>CancelAskOrder\<close> that sends a cancel changes the ask identifier (to 0) and the
  outbox and nothing else, so \<open>mAskPrice\<close> and \<open>mAskVolume\<close> keep the cancelled order's
  values; the next \<open>InsertAskOrder\<close> clamps the requested volume by
  \<open>mPosition + POSITION_LIMIT - mAskVolume\<close> with that old volume; and over any further
  callbacks (none of them a status for the sentinel 0) the volume stays until a sell
  insert is emitted. The same holds for \<open>CancelBidOrder\<close> and the bid fields.
\<close>

theorem cancel_resets_identifier_only:
  "(mAskId s \<noteq> 0 \<and> p \<noteq> 0 \<and> p \<noteq> mAskPrice s \<longrightarrow>
      CancelAskOrder p s = s\<lparr>outbox := outbox s @ [SendCancelOrder (mAskId s)], mAskId := 0\<rparr> \<and>
      mAskPrice (CancelAskOrder p s) = mAskPrice s \<and>
      mAskVolume (CancelAskOrder p s) = mAskVolume s \<and>
      emitted (CancelAskOrder p s) (InsertAskOrder p' q (CancelAskOrder p s)) =
        (if p' \<noteq> 0 \<and> std_min_long (mPosition s + POSITION_LIMIT - mAskVolume s) q \<noteq> 0
         then [SendInsertOrder (mNextMessageId s) SELL p'
                 (std_min_long (mPosition s + POSITION_LIMIT - mAskVolume s) q) GOOD_FOR_DAY]
         else []) \<and>
      (\<not> list_ex status_of_none es \<longrightarrow>
         mAskVolume (run v es (CancelAskOrder p s)) = mAskVolume s \<or>
         filter (is_insert_of SELL)
           (emitted (CancelAskOrder p s) (run v es (CancelAskOrder p s))) \<noteq> [])) \<and>
   (mBidId s \<noteq> 0 \<and> p \<noteq> 0 \<and> p \<noteq> mBidPrice s \<longrightarrow>
      CancelBidOrder p s = s\<lparr>outbox := outbox s @ [SendCancelOrder (mBidId s)], mBidId := 0\<rparr> \<and>
      mBidPrice (CancelBidOrder p s) = mBidPrice s \<and>
      mBidVolume (CancelBidOrder p s) = mBidVolume s \<and>
      emitted (CancelBidOrder p s) (InsertBidOrder p' q (CancelBidOrder p s)) =
        (if p' \<noteq> 0 \<and> std_min_long (POSITION_LIMIT - mPosition s - mBidVolume s) q \<noteq> 0
         then [SendInsertOrder (mNextMessageId s) BUY p'
                 (std_min_long (POSITION_LIMIT - mPosition s - mBidVolume s) q) GOOD_FOR_DAY]
         else []) \<and>
      (\<not> list_ex status_of_none es \<longrightarrow>
         mBidVolume (run v es (CancelBidOrder p s)) = mBidVolume s \<or>
         filter (is_insert_of BUY)
           (emitted (CancelBidOrder p s) (run v es (CancelBidOrder p s))) \<noteq> []))"
proof -
  have ask: "mAskVolume (run v es (CancelAskOrder p s)) = mAskVolume s \<or>
         filter (is_insert_of SELL)
           (emitted (CancelAskOrder p s) (run v es (CancelAskOrder p s))) \<noteq> []"
    if "mAskId s \<noteq> 0" "p \<noteq> 0" "p \<noteq> mAskPrice s" "\<not> list_ex status_of_none es"
  proof -
    have "mAskId (CancelAskOrder p s) = 0" using that by (simp add: CancelAskOrder_def)
    from cancelled_ask_volume_stays_run [OF this that(4), of v] show ?thesis by auto
  qed
  have bid: "mBidVolume (run v es (CancelBidOrder p s)) = mBidVolume s \<or>
         filter (is_insert_of BUY)
           (emitted (CancelBidOrder p s) (run v es (CancelBidOrder p s))) \<noteq> []"
    if "mBidId s \<noteq> 0" "p \<noteq> 0" "p \<noteq> mBidPrice s" "\<not> list_ex status_of_none es"
  proof -
    have "mBidId (CancelBidOrder p s) = 0" using that by (simp add: CancelBidOrder_def)
    from cancelled_bid_volume_stays_run [OF this that(4), of v] show ?thesis by auto
  qed
  have ask1: "emitted (CancelAskOrder p s) (InsertAskOrder p' q (CancelAskOrder p s)) =
        (if p' \<noteq> 0 \<and> std_min_long (mPosition s + POSITION_LIMIT - mAskVolume s) q \<noteq> 0
         then [SendInsertOrder (mNextMessageId s) SELL p'
                 (std_min_long (mPosition s + POSITION_LIMIT - mAskVolume s) q) GOOD_FOR_DAY]
         else [])"
    if "mAskId s \<noteq> 0" "p \<noteq> 0" "p \<noteq> mAskPrice s"
    using that
    by (simp add: CancelAskOrder_def InsertAskOrder_def Let_def emitted_def word_greater_zero_iff)
  have bid1: "emitted (CancelBidOrder p s) (InsertBidOrder p' q (CancelBidOrder p s)) =
        (if p' \<noteq> 0 \<and> std_min_long (POSITION_LIMIT - mPosition s - mBidVolume s) q \<noteq> 0
         then [SendInsertOrder (mNextMessageId s) BUY p'
                 (std_min_long (POSITION_LIMIT - mPosition s - mBidVolume s) q) GOOD_FOR_DAY]
         else [])"
    if "mBidId s \<noteq> 0" "p \<noteq> 0" "p \<noteq> mBidPrice s"
    using that
    by (simp add: CancelBidOrder_def InsertBidOrder_def Let_def emitted_def word_greater_zero_iff)
  show ?thesis
    using ask bid ask1 bid1 by (simp add: CancelAskOrder_def CancelBidOrder_def)
qed


lemmas engine_defs =
  CancelAskOrder_def CancelBidOrder_def InsertAskOrder_def InsertBidOrder_def HedgeOrder_def
  OrderStatusMessageHandler_def ErrorMessageHandler_def HedgeFilledMessageHandler_def
  OrderBookMessageHandler_def OrderFilledMessageHandler_def TradeTicksMessageHandler_def
  std_min_long_def std_max_long_def std_abs_long_def long_div_def double_of_long_def
  std_ceil_def std_floor_def ulong_of_double_def elapsed_ms_def
  POSITION_LIMIT_def TICK_SIZE_IN_CENTS_def MAX_UNHEDGED_LOTS_def UNHEDGED_LOTS_TIME_LIMIT_def
  MIN_BID_NEAREST_TICK_def MAX_ASK_NEAREST_TICK_def
  initial_def example_venue_def resting_pair_def emitted_def in_tolerance_def quoted_def
  Let_def word_sless_alt word_sle_eq

lemma resting_pair_reached:
  "run example_venue [OrderBookMessage 0 0 FUTURE 1 [10000] [5] [9900] [5]] (initial 50 50 0) =
   resting_pair"
  by (simp add: engine_defs)

text \<open>The ask of 50 lots is cancelled for a new price of 10100; an insert of 80 lots is
  then clamped to the 50 lots the old volume leaves, and a fill and a trade tick later
  the volume is still 50.\<close>

theorem cancel_resets_identifier_only_witness:
  "mAskId resting_pair \<noteq> 0 \<and> (10100::ulong) \<noteq> 0 \<and> 10100 \<noteq> mAskPrice resting_pair \<and>
   CancelAskOrder 10100 resting_pair =
     resting_pair\<lparr>outbox := outbox resting_pair @ [SendCancelOrder 1], mAskId := 0\<rparr> \<and>
   emitted (CancelAskOrder 10100 resting_pair)
     (InsertAskOrder 10100 80 (CancelAskOrder 10100 resting_pair)) =
     [SendInsertOrder 3 SELL 10100 50 GOOD_FOR_DAY] \<and>
   \<not> list_ex status_of_none
       [OrderFilledMessage 1 10000 5, TradeTicksMessage FUTURE 2 [10000] [5] [9900] [5]] \<and>
   mAskVolume (run example_venue
       [OrderFilledMessage 1 10000 5, TradeTicksMessage FUTURE 2 [10000] [5] [9900] [5]]
       (CancelAskOrder 10100 resting_pair)) = 50 \<and>
   mBidId resting_pair \<noteq> 0 \<and> 10100 \<noteq> mBidPrice resting_pair \<and>
   CancelBidOrder 10100 resting_pair =
     resting_pair\<lparr>outbox := outbox resting_pair @ [SendCancelOrder 2], mBidId := 0\<rparr> \<and>
   emitted (CancelBidOrder 10100 resting_pair)
     (InsertBidOrder 10100 80 (CancelBidOrder 10100 resting_pair)) =
     [SendInsertOrder 3 BUY 10100 50 GOOD_FOR_DAY]"
  using cancel_resets_identifier_only
    [where s = resting_pair and p = 10100 and p' = 10100 and q = 80 and v = example_venue
       and es = "[OrderFilledMessage 1 10000 5, TradeTicksMessage FUTURE 2 [10000] [5] [9900] [5]]"]
  by (simp add: engine_defs)


section \<open>Word arithmetic in the range the engine works in\<close>




lemma sint_POSITION_LIMIT [simp]: "sint POSITION_LIMIT = 100"
  by (simp add: POSITION_LIMIT_def)




section \<open>The next-quote volumes\<close>


lemma OrderFilledMessageHandler_recomputes:
  "mNewBidVolume (OrderFilledMessageHandler c p vol s) =
     recomputed_bid_volume (mPosition (OrderFilledMessageHandler c p vol s)) \<and>
   mNewAskVolume (OrderFilledMessageHandler c p vol s) =
     mPosition (OrderFilledMessageHandler c p vol s) +
     recomputed_bid_volume (mPosition (OrderFilledMessageHandler c p vol s))"
  by (simp add: OrderFilledMessageHandler_def recomputed_bid_volume_def Let_def)

text \<open>
  C5. The claim's example holds: a fill that takes the position to -4 gives a next bid
  size of 52 and a next ask size of 48. At an odd negative position the code does not
  compute the ceiling: a fill of 5 lots on ask 1 takes the position from 0 to -5, and the
  handler stores 52 and 47, where the ceiling of 105 / 2 is 53 (and -5 + 53 = 48). The
  quotient is taken at type \<open>long\<close> and is already whole when \<open>std::ceil\<close> is applied.
\<close>

theorem next_bid_size_at_odd_negative_position:
  "mPosition (OrderFilledMessageHandler 1 10000 4 resting_pair) = - 4 \<and>
   mNewBidVolume (OrderFilledMessageHandler 1 10000 4 resting_pair) = 52 \<and>
   mNewAskVolume (OrderFilledMessageHandler 1 10000 4 resting_pair) = 48 \<and>
   mPosition (OrderFilledMessageHandler 1 10000 5 resting_pair) = - 5 \<and>
   mNewBidVolume (OrderFilledMessageHandler 1 10000 5 resting_pair) = 52 \<and>
   mNewAskVolume (OrderFilledMessageHandler 1 10000 5 resting_pair) = 47 \<and>
   \<lceil>(of_int (sint POSITION_LIMIT - (- 5)) :: rat) / 2\<rceil> = 53"
  by code_simp

section \<open>The insert clamp\<close>

lemma emitted_InsertAskOrder:
  "emitted s (InsertAskOrder p q s) =
     (if mAskId s = 0 \<and> p \<noteq> 0 \<and>
         std_min_long (mPosition s + POSITION_LIMIT - mAskVolume s) q \<noteq> 0
      then [SendInsertOrder (mNextMessageId s) SELL p
              (std_min_long (mPosition s + POSITION_LIMIT - mAskVolume s) q) GOOD_FOR_DAY]
      else [])"
  by (simp add: InsertAskOrder_def Let_def emitted_def word_greater_zero_iff)

lemma emitted_InsertBidOrder:
  "emitted s (InsertBidOrder p q s) =
     (if mBidId s = 0 \<and> p \<noteq> 0 \<and>
         std_min_long (POSITION_LIMIT - mPosition s - mBidVolume s) q \<noteq> 0
      then [SendInsertOrder (mNextMessageId s) BUY p
              (std_min_long (POSITION_LIMIT - mPosition s - mBidVolume s) q) GOOD_FOR_DAY]
      else [])"
  by (simp add: InsertBidOrder_def Let_def emitted_def word_greater_zero_iff)

text \<open>
  C2. An insert is sent exactly when the side's identifier is 0, the price is not 0 and
  the clamped volume is not 0 (the two lemmas above); the test \<open>newAskVolume > 0\<close> is
  made on the \<open>unsigned long\<close> parameter and lets a negative clamp through. Reached from
  a fresh engine, every fill followed by its status: ask 1 (50 lots) is cancelled and
  replaced by ask 3 (50 lots); ask 1 turns out to have been filled before its cancel; the
  next book update cancels ask 3 and has no headroom for a new ask; ask 3 too turns out
  to have been filled, and its status no longer matches the emptied slot, so the tracked
  volume stays 50. At the next book update the position is -100, the headroom is
  \<open>-100 + 100 - 50 = -50\<close>, the requested volume is 0, the clamped volume is -50, and
  the engine sends a sell order of \<open>2 ^ 64 - 50\<close> lots.
\<close>

theorem negative_clamped_volume_is_sent:
  "sint (mPosition (run example_venue
      [OrderBookMessage 0 0 FUTURE 1 [10000] [5] [9900] [5],
       OrderBookMessage 1 1 FUTURE 2 [10100] [5] [9900] [5],
       OrderFilledMessage 1 10000 50, OrderStatusMessage 1 50 0 0,
       OrderBookMessage 2 2 FUTURE 3 [10200] [5] [9900] [5],
       OrderFilledMessage 3 10100 50, OrderStatusMessage 3 50 0 0] (initial 50 50 0))) = - 100 \<and>
   mAskId (run example_venue
      [OrderBookMessage 0 0 FUTURE 1 [10000] [5] [9900] [5],
       OrderBookMessage 1 1 FUTURE 2 [10100] [5] [9900] [5],
       OrderFilledMessage 1 10000 50, OrderStatusMessage 1 50 0 0,
       OrderBookMessage 2 2 FUTURE 3 [10200] [5] [9900] [5],
       OrderFilledMessage 3 10100 50, OrderStatusMessage 3 50 0 0] (initial 50 50 0)) = 0 \<and>
   mAskVolume (run example_venue
      [OrderBookMessage 0 0 FUTURE 1 [10000] [5] [9900] [5],
       OrderBookMessage 1 1 FUTURE 2 [10100] [5] [9900] [5],
       OrderFilledMessage 1 10000 50, OrderStatusMessage 1 50 0 0,
       OrderBookMessage 2 2 FUTURE 3 [10200] [5] [9900] [5],
       OrderFilledMessage 3 10100 50, OrderStatusMessage 3 50 0 0] (initial 50 50 0)) = 50 \<and>
   mNewAskVolume (run example_venue
      [OrderBookMessage 0 0 FUTURE 1 [10000] [5] [9900] [5],
       OrderBookMessage 1 1 FUTURE 2 [10100] [5] [9900] [5],
       OrderFilledMessage 1 10000 50, OrderStatusMessage 1 50 0 0,
       OrderBookMessage 2 2 FUTURE 3 [10200] [5] [9900] [5],
       OrderFilledMessage 3 10100 50, OrderStatusMessage 3 50 0 0] (initial 50 50 0)) = 0 \<and>
   sint (std_min_long (- 100 + POSITION_LIMIT - 50) 0) = - 50 \<and>
   emitted
     (run example_venue
        [OrderBookMessage 0 0 FUTURE 1 [10000] [5] [9900] [5],
         OrderBookMessage 1 1 FUTURE 2 [10100] [5] [9900] [5],
         OrderFilledMessage 1 10000 50, OrderStatusMessage 1 50 0 0,
         OrderBookMessage 2 2 FUTURE 3 [10200] [5] [9900] [5],
         OrderFilledMessage 3 10100 50, OrderStatusMessage 3 50 0 0] (initial 50 50 0))
     (run example_venue
        [OrderBookMessage 0 0 FUTURE 1 [10000] [5] [9900] [5],
         OrderBookMessage 1 1 FUTURE 2 [10100] [5] [9900] [5],
         OrderFilledMessage 1 10000 50, OrderStatusMessage 1 50 0 0,
         OrderBookMessage 2 2 FUTURE 3 [10200] [5] [9900] [5],
         OrderFilledMessage 3 10100 50, OrderStatusMessage 3 50 0 0,
         OrderBookMessage 3 3 FUTURE 4 [10300] [5] [9900] [5]] (initial 50 50 0)) =
     [SendInsertOrder 4 SELL 10300 18446744073709551566 GOOD_FOR_DAY] \<and>
   sint (18446744073709551566 :: ulong) = - 50"
  by code_simp

section \<open>Callbacks for an unknown identifier\<close>




text \<open>An engine constructed with next-quote volumes of 50 and 50, the values for the
  position 0, starts in step.\<close>

lemma synced_initial: "synced (initial 50 50 t0)"
  unfolding synced_def initial_def by code_simp



section \<open>The debounce timer\<close>

lemma hedge_only_from_hedge_branch:
  assumes "list_ex is_hedge (emitted s (handle v e s))"
  shows "\<exists>now1 now2 n ap av bp bv.
           e = OrderBookMessage now1 now2 FUTURE n ap av bp bv \<and>
           \<not> in_tolerance s \<and> UNHEDGED_LOTS_TIME_LIMIT \<le> elapsed_ms now1 (mStartTime s)"
proof (cases e)
  case (OrderBookMessage now1 now2 i n ap av bp bv)
  show ?thesis
  proof (cases i)
    case FUTURE
    obtain xs where xs: "outbox (quoted (ap ! 0) (bp ! 0) s) = outbox s @ xs"
      "filter is_hedge xs = []"
      using outbox_quoted by blast
    have no: "\<not> list_ex is_hedge xs"
      using xs(2) by (simp add: list_ex_iff filter_empty_conv)
    have "\<not> in_tolerance s \<and> UNHEDGED_LOTS_TIME_LIMIT \<le> elapsed_ms now1 (mStartTime s)"
    proof (rule ccontr)
      assume "\<not> ?thesis"
      then have "emitted s (handle v e s) = xs"
        using OrderBookMessage FUTURE xs(1)
        by (auto simp add: OrderBookMessageHandler_quoted emitted_def)
      then show False using assms no by simp
    qed
    then show ?thesis using OrderBookMessage FUTURE by blast
  next
    case ETF
    then show ?thesis using assms OrderBookMessage
      by (simp add: OrderBookMessageHandler_def emitted_def)
  qed
next
  case (OrderFilledMessage c p vol)
  then show ?thesis using assms
    by (simp add: OrderFilledMessageHandler_def Let_def emitted_def)
next
  case (OrderStatusMessage c f r fees)
  then show ?thesis using assms
    by (simp add: OrderStatusMessageHandler_def Let_def emitted_def)
next
  case (ErrorMessage c m)
  then show ?thesis using assms
    by (simp add: ErrorMessageHandler_def OrderStatusMessageHandler_def Let_def emitted_def)
next
  case (HedgeFilledMessage c p vol)
  then show ?thesis using assms by (simp add: HedgeFilledMessageHandler_def emitted_def)
next
  case (TradeTicksMessage i n ap av bp bv)
  then show ?thesis using assms by (simp add: TradeTicksMessageHandler_def emitted_def)
qed

text \<open>An exposure the handler finds outside the tolerance is one \<open>HedgeOrder\<close> acts on.\<close>

lemma outside_tolerance:
  fixes x :: "64 word"
  assumes "\<not> std_abs_long x \<le>s MAX_UNHEDGED_LOTS"
  shows "MAX_UNHEDGED_LOTS <s x \<or> x <s - MAX_UNHEDGED_LOTS"
proof (cases "sint x < 0")
  case True
  then have a: "\<not> sint (- x) \<le> 10"
    using assms by (simp add: std_abs_long_def word_sless_alt word_sle_eq MAX_UNHEDGED_LOTS_def)
  have lo: "- (2 ^ 63) \<le> sint x" using sint_ge [of x] by simp
  have "sint x \<noteq> - (2 ^ 63)"
  proof
    assume e: "sint x = - (2 ^ 63)"
    have "sint (- x) = signed_take_bit 63 (- sint x)" by (simp add: sint_word_minus)
    then have "sint (- x) = - (2 ^ 63)" using e by simp
    then show False using a by simp
  qed
  then have "- (2 ^ 63) \<le> - sint x" "- sint x < 2 ^ 63" using lo True by simp_all
  then have "sint (- x) = - sint x"
    by (simp add: sint_word_minus signed_take_bit_int_eq_self)
  then have "sint x < - 10" using a by simp
  then show ?thesis by (simp add: word_sless_alt MAX_UNHEDGED_LOTS_def)
next
  case False
  then have "\<not> sint x \<le> 10"
    using assms by (simp add: std_abs_long_def word_sless_alt word_sle_eq MAX_UNHEDGED_LOTS_def)
  then show ?thesis by (simp add: word_sless_alt MAX_UNHEDGED_LOTS_def)
qed

lemma HedgeOrder_emits:
  assumes "\<not> in_tolerance s"
  shows "list_ex is_hedge (emitted s (HedgeOrder v s))"
  using outside_tolerance [of "mPosition s + mHedgePosition s"] assms
  by (auto simp add: in_tolerance_def HedgeOrder_def Let_def emitted_def)

lemma hedge_branch_emits:
  assumes "\<not> in_tolerance s" "UNHEDGED_LOTS_TIME_LIMIT \<le> elapsed_ms now1 (mStartTime s)"
  shows "list_ex is_hedge (emitted s (OrderBookMessageHandler v now1 now2 FUTURE n ap av bp bv s))"
proof -
  let ?q = "quoted (ap ! 0) (bp ! 0) s"
  obtain xs where xs: "outbox ?q = outbox s @ xs" using outbox_quoted by blast
  obtain h where h: "outbox (HedgeOrder v ?q) = outbox ?q @ h"
    using outbox_HedgeOrder [of v ?q] by blast
  have "list_ex is_hedge (emitted ?q (HedgeOrder v ?q))"
    using assms(1) by (intro HedgeOrder_emits) simp
  then have "list_ex is_hedge h" using h by (simp add: emitted_def)
  then show ?thesis
    using assms xs h by (simp add: OrderBookMessageHandler_quoted emitted_def)
qed

text \<open>The timer after a callback is what the callback's observation says.\<close>

lemma timer_after_handle:
  "mStartTime (handle v e s) = timer_after (mStartTime s) (observe v e s)"
proof (cases e)
  case (OrderBookMessage now1 now2 i n ap av bp bv)
  show ?thesis
  proof (cases i)
    case FUTURE
    let ?h = "list_ex is_hedge
                (emitted s (OrderBookMessageHandler v now1 now2 FUTURE n ap av bp bv s))"
    consider (ins) "in_tolerance s"
      | (hed) "\<not> in_tolerance s" "UNHEDGED_LOTS_TIME_LIMIT \<le> elapsed_ms now1 (mStartTime s)"
      | (run) "\<not> in_tolerance s" "\<not> UNHEDGED_LOTS_TIME_LIMIT \<le> elapsed_ms now1 (mStartTime s)"
      by blast
    then show ?thesis
    proof cases
      case ins
      then show ?thesis using OrderBookMessage FUTURE
        by (simp add: OrderBookMessageHandler_quoted)
    next
      case hed
      then have ?h by (rule hedge_branch_emits)
      then show ?thesis using hed OrderBookMessage FUTURE
        by (simp add: OrderBookMessageHandler_quoted)
    next
      case run
      have "\<not> ?h"
        using hedge_only_from_hedge_branch
          [of s v "OrderBookMessage now1 now2 FUTURE n ap av bp bv"] run(2)
        by auto
      then show ?thesis using run OrderBookMessage FUTURE
        by (simp add: OrderBookMessageHandler_quoted)
    qed
  next
    case ETF
    then show ?thesis using OrderBookMessage by (simp add: OrderBookMessageHandler_def)
  qed
next
  case (OrderFilledMessage c p vol)
  then show ?thesis by (simp add: OrderFilledMessageHandler_def Let_def)
next
  case (OrderStatusMessage c f r fees)
  then show ?thesis by (simp add: OrderStatusMessageHandler_def Let_def)
next
  case (ErrorMessage c m)
  then show ?thesis by (simp add: ErrorMessageHandler_def OrderStatusMessageHandler_def Let_def)
next
  case (HedgeFilledMessage c p vol)
  then show ?thesis by (simp add: HedgeFilledMessageHandler_def)
next
  case (TradeTicksMessage i n ap av bp bv)
  then show ?thesis by (simp add: TradeTicksMessageHandler_def)
qed

lemma timer_after_append:
  "timer_after t (xs @ ys) = timer_after (timer_after t xs) ys"
  by (induction xs arbitrary: t) simp_all

lemma timer_after_run:
  "mStartTime (run v es s) = timer_after (mStartTime s) (observations v es s)"
proof (induction es arbitrary: s)
  case Nil
  then show ?case by simp
next
  case (Cons e es)
  show ?case
    using Cons.IH [of "handle v e s"]
    by (simp add: timer_after_append timer_after_handle)
qed

text \<open>A restart recorded by an observation is the timer's value right after it, and one
  of the readings of its event.\<close>

lemma observe_at_most_one:
  "observe v e s = [] \<or>
   (\<exists>now1 now2 n ap av bp bv. e = OrderBookMessage now1 now2 FUTURE n ap av bp bv \<and>
      observe v e s = [Observation now1 now2 (in_tolerance s)
        (list_ex is_hedge
           (emitted s (OrderBookMessageHandler v now1 now2 FUTURE n ap av bp bv s)))])"
proof (cases e)
  case (OrderBookMessage now1 now2 i n ap av bp bv)
  then show ?thesis by (cases i) simp_all
qed simp_all

lemma restart_sets_timer:
  assumes "ob \<in> set (observe v e s)" "restart ob = Some t"
  shows "mStartTime (handle v e s) = t \<and> t \<in> set (readings e)"
proof -
  from observe_at_most_one [of v e s] assms(1)
  obtain now1 now2 n ap av bp bv where
    e: "e = OrderBookMessage now1 now2 FUTURE n ap av bp bv"
    and o: "observe v e s = [ob]"
    by auto
  have "mStartTime (handle v e s) = t"
    using timer_after_handle [of v e s] o assms(2) by simp
  moreover have "t \<in> set (readings e)"
    using assms e by (auto split: if_splits)
  ultimately show ?thesis by simp
qed

lemma start_time_handle:
  "mStartTime (handle v e s) = mStartTime s \<or> mStartTime (handle v e s) \<in> set (readings e)"
proof (cases "observe v e s")
  case Nil
  then show ?thesis using timer_after_handle [of v e s] by simp
next
  case (Cons ob obs)
  then have one: "observe v e s = [ob]"
    using observe_at_most_one [of v e s] by auto
  then have ob: "ob \<in> set (observe v e s)" by simp
  show ?thesis
  proof (cases "restart ob")
    case None
    then show ?thesis using timer_after_handle [of v e s] one by simp
  next
    case (Some t)
    then show ?thesis using restart_sets_timer [OF ob Some] by simp
  qed
qed

lemma start_time_lower_bound:
  assumes "sint t \<le> sint (mStartTime s)"
    and "\<forall>r \<in> set (concat (map readings es)). sint t \<le> sint r"
  shows "sint t \<le> sint (mStartTime (run v es s))"
  using assms
proof (induction es arbitrary: s)
  case Nil
  then show ?case by simp
next
  case (Cons e es)
  have "sint t \<le> sint (mStartTime (handle v e s))"
    using start_time_handle [of v e s] Cons.prems by auto
  then show ?case using Cons.IH [of "handle v e s"] Cons.prems(2) by simp
qed

lemma start_time_is_a_reading:
  "mStartTime (run v es s) = mStartTime s \<or>
   mStartTime (run v es s) \<in> set (concat (map readings es))"
proof (induction es arbitrary: s)
  case Nil
  then show ?case by simp
next
  case (Cons e es)
  show ?case
    using Cons.IH [of "handle v e s"] start_time_handle [of v e s] by auto
qed

lemma restart_bounds_timer:
  assumes "sorted (map sint (concat (map readings es)))"
    and "ob \<in> set (observations v es s)" "restart ob = Some t"
  shows "sint t \<le> sint (mStartTime (run v es s)) \<and>
         t \<in> set (concat (map readings es)) \<and>
         mStartTime (run v es s) \<in> set (concat (map readings es))"
  using assms
proof (induction es arbitrary: s)
  case Nil
  then show ?case by simp
next
  case (Cons e es)
  have tail: "sorted (map sint (concat (map readings es)))"
    using Cons.prems(1) by (simp add: sorted_append)
  from Cons.prems(2) consider
    (head) "ob \<in> set (observe v e s)" |
    (rest) "ob \<in> set (observations v es (handle v e s))"
    by auto
  then show ?case
  proof cases
    case head
    have st: "mStartTime (handle v e s) = t" and rd: "t \<in> set (readings e)"
      using restart_sets_timer [OF head Cons.prems(3)] by simp_all
    have "\<forall>x \<in> set (concat (map readings es)). sint t \<le> sint x"
      using Cons.prems(1) rd by (auto simp add: sorted_append)
    then have "sint t \<le> sint (mStartTime (run v es (handle v e s)))"
      using start_time_lower_bound [of t "handle v e s" es v] st by simp
    moreover have "mStartTime (run v es (handle v e s)) \<in> set (concat (map readings (e # es)))"
      using start_time_is_a_reading [of v es "handle v e s"] st rd by auto
    ultimately show ?thesis using rd by simp
  next
    case rest
    then show ?thesis using Cons.IH [OF tail rest Cons.prems(3)] by auto
  qed
qed

text \<open>Between steady readings the elapsed time does not wrap, and an earlier start gives
  a longer elapsed time.\<close>

lemma sint_diff_no_wrap:
  fixes a b :: "64 word"
  assumes "sint b \<le> sint a" "sint a - sint b < 2 ^ 63"
  shows "sint (a - b) = sint a - sint b"
proof -
  have "- (2 ^ 63) \<le> sint a - sint b" using assms(1) by simp
  then show ?thesis
    using assms(2) by (simp add: sint_word_diff signed_take_bit_int_eq_self)
qed

lemma elapsed_ms_mono:
  assumes "sint t \<le> sint start" "sint start \<le> sint now" "sint now - sint t < 2 ^ 63"
    and "UNHEDGED_LOTS_TIME_LIMIT \<le> elapsed_ms now start"
  shows "UNHEDGED_LOTS_TIME_LIMIT \<le> elapsed_ms now t"
proof -
  have d1: "sint (now - start) = sint now - sint start"
    using assms(1-3) by (intro sint_diff_no_wrap) simp_all
  have d2: "sint (now - t) = sint now - sint t"
    using assms(1-3) by (intro sint_diff_no_wrap) simp_all
  have "(sint now - sint start) sdiv 1000000 = (sint now - sint start) div 1000000"
    using assms(2) by (simp add: signed_divide_int_def sgn_if)
  moreover have "(sint now - sint t) sdiv 1000000 = (sint now - sint t) div 1000000"
    using assms(1,2) by (simp add: signed_divide_int_def sgn_if)
  moreover have "(sint now - sint start) div 1000000 \<le> (sint now - sint t) div 1000000"
    using assms(1) by (intro zdiv_mono1) simp_all
  ultimately show ?thesis using assms(4) by (simp add: elapsed_ms_def d1 d2)
qed

text \<open>
  C4, as stated, fails: the timer is restarted by an observation within the tolerance
  and is not restarted when the exposure is first seen outside it. A book update at time
  0 sees the exposure within the tolerance; a fill of 50 lots on the bid follows; the
  book updates at 20 s and 40 s see the exposure outside; the update at 57.5 s hedges,
  although the exposure has been seen outside the tolerance for 37.5 seconds only.
\<close>

theorem hedge_before_sustained_excess_counterexample:
  "observations example_venue
     [OrderBookMessage 0 0 FUTURE 1 [10000] [5] [9900] [5],
      OrderFilledMessage 2 9900 50,
      OrderBookMessage 20000000000 20000000000 FUTURE 2 [10000] [5] [9900] [5],
      OrderBookMessage 40000000000 40000000000 FUTURE 3 [10000] [5] [9900] [5],
      OrderBookMessage 57500000000 57500000001 FUTURE 4 [10000] [5] [9900] [5]]
     (initial 50 50 0) =
     [Observation 0 0 True False,
      Observation 20000000000 20000000000 False False,
      Observation 40000000000 40000000000 False False,
      Observation 57500000000 57500000001 False True] \<and>
   \<not> sustained
       (rev (observations example_venue
         [OrderBookMessage 0 0 FUTURE 1 [10000] [5] [9900] [5],
          OrderFilledMessage 2 9900 50,
          OrderBookMessage 20000000000 20000000000 FUTURE 2 [10000] [5] [9900] [5],
          OrderBookMessage 40000000000 40000000000 FUTURE 3 [10000] [5] [9900] [5],
          OrderBookMessage 57500000000 57500000001 FUTURE 4 [10000] [5] [9900] [5]]
         (initial 50 50 0)))
       57500000000 \<and>
   emitted
     (run example_venue
        [OrderBookMessage 0 0 FUTURE 1 [10000] [5] [9900] [5],
         OrderFilledMessage 2 9900 50,
         OrderBookMessage 20000000000 20000000000 FUTURE 2 [10000] [5] [9900] [5],
         OrderBookMessage 40000000000 40000000000 FUTURE 3 [10000] [5] [9900] [5]]
        (initial 50 50 0))
     (run example_venue
        [OrderBookMessage 0 0 FUTURE 1 [10000] [5] [9900] [5],
         OrderFilledMessage 2 9900 50,
         OrderBookMessage 20000000000 20000000000 FUTURE 2 [10000] [5] [9900] [5],
         OrderBookMessage 40000000000 40000000000 FUTURE 3 [10000] [5] [9900] [5],
         OrderBookMessage 57500000000 57500000001 FUTURE 4 [10000] [5] [9900] [5]]
        (initial 50 50 0)) =
     [SendHedgeOrder 3 SELL 100 40]"
  by code_simp

text \<open>
  C4, amended. A book update emits a hedge order only if it is an update of the quoted
  instrument, it sees the exposure outside the tolerance, and at least the debounce
  duration has elapsed, in the clock's 64-bit arithmetic, since the start of the timer.
  That start is fixed by the observations made so far: the first reading of the last
  observation within the tolerance or the second reading of the last observation that
  hedged, whichever observation came later, and the timer's initial value when there is
  neither. The hedging update restarts the timer at its second reading. When the clock
  readings are steady, every earlier observation within the tolerance and every earlier
  hedge lies at least the debounce duration back, so no hedge fires across either before
  the full duration has elapsed from it.
\<close>

theorem hedge_waits_for_timer:
  assumes "list_ex is_hedge
             (emitted (run v es s0)
                (handle v (OrderBookMessage now1 now2 i n ap av bp bv) (run v es s0)))"
  shows "i = FUTURE \<and> \<not> in_tolerance (run v es s0) \<and>
         UNHEDGED_LOTS_TIME_LIMIT \<le>
           elapsed_ms now1 (timer_after (mStartTime s0) (observations v es s0)) \<and>
         mStartTime (handle v (OrderBookMessage now1 now2 i n ap av bp bv) (run v es s0)) =
           now2 \<and>
         (steady (concat (map readings es) @ [now1]) \<longrightarrow>
            (\<forall>ob \<in> set (observations v es s0). \<forall>t. restart ob = Some t \<longrightarrow>
               UNHEDGED_LOTS_TIME_LIMIT \<le> elapsed_ms now1 t))"
proof -
  let ?s = "run v es s0"
  let ?e = "OrderBookMessage now1 now2 i n ap av bp bv"
  from hedge_only_from_hedge_branch [OF assms]
  have br: "i = FUTURE" "\<not> in_tolerance ?s"
    "UNHEDGED_LOTS_TIME_LIMIT \<le> elapsed_ms now1 (mStartTime ?s)"
    by auto
  have tm: "mStartTime ?s = timer_after (mStartTime s0) (observations v es s0)"
    by (rule timer_after_run)
  have "observe v ?e ?s = [Observation now1 now2 False True]"
    using br(1,2) assms by simp
  then have after: "mStartTime (handle v ?e ?s) = now2"
    using timer_after_handle [of v ?e ?s] by simp
  have older: "UNHEDGED_LOTS_TIME_LIMIT \<le> elapsed_ms now1 t"
    if st: "steady (concat (map readings es) @ [now1])"
      and ob: "ob \<in> set (observations v es s0)" "restart ob = Some t" for ob t
  proof -
    have srt: "sorted (map sint (concat (map readings es)))"
      and last: "\<forall>r \<in> set (concat (map readings es)). sint r \<le> sint now1"
      and span: "\<forall>a \<in> set (concat (map readings es)). sint now1 - sint a < 2 ^ 63"
      using st by (auto simp add: steady_def sorted_append)
    from restart_bounds_timer [OF srt ob]
    have t: "sint t \<le> sint (mStartTime ?s)" "t \<in> set (concat (map readings es))"
      "mStartTime ?s \<in> set (concat (map readings es))"
      by simp_all
    show ?thesis
      using t(1) last t(3) span t(2) br(3) by (intro elapsed_ms_mono [of t "mStartTime ?s"]) auto
  qed
  show ?thesis using br tm after older by auto
qed

text \<open>The exposure is within the tolerance at time 0; a fill of 50 lots on the bid follows
  and the book update at 57.5 s hedges 40 lots; the ask is then filled, which leaves an
  exposure of -40; the update at 60 s does not hedge, the update at 120 s does.\<close>

theorem hedge_waits_for_timer_witness:
  "list_ex is_hedge
     (emitted
        (run example_venue
           [OrderBookMessage 0 0 FUTURE 1 [10000] [5] [9900] [5],
            OrderFilledMessage 2 9900 50,
            OrderBookMessage 57500000000 57500000001 FUTURE 2 [10000] [5] [9900] [5],
            OrderFilledMessage 1 10000 50,
            OrderBookMessage 60000000000 60000000001 FUTURE 3 [10000] [5] [9900] [5]]
           (initial 50 50 0))
        (handle example_venue
           (OrderBookMessage 120000000000 120000000001 FUTURE 4 [10000] [5] [9900] [5])
           (run example_venue
              [OrderBookMessage 0 0 FUTURE 1 [10000] [5] [9900] [5],
               OrderFilledMessage 2 9900 50,
               OrderBookMessage 57500000000 57500000001 FUTURE 2 [10000] [5] [9900] [5],
               OrderFilledMessage 1 10000 50,
               OrderBookMessage 60000000000 60000000001 FUTURE 3 [10000] [5] [9900] [5]]
              (initial 50 50 0)))) \<and>
   steady (concat (map readings
        [OrderBookMessage 0 0 FUTURE 1 [10000] [5] [9900] [5],
         OrderFilledMessage 2 9900 50,
         OrderBookMessage 57500000000 57500000001 FUTURE 2 [10000] [5] [9900] [5],
         OrderFilledMessage 1 10000 50,
         OrderBookMessage 60000000000 60000000001 FUTURE 3 [10000] [5] [9900] [5]]) @
      [120000000000]) \<and>
   observations example_venue
     [OrderBookMessage 0 0 FUTURE 1 [10000] [5] [9900] [5],
      OrderFilledMessage 2 9900 50,
      OrderBookMessage 57500000000 57500000001 FUTURE 2 [10000] [5] [9900] [5],
      OrderFilledMessage 1 10000 50,
      OrderBookMessage 60000000000 60000000001 FUTURE 3 [10000] [5] [9900] [5]]
     (initial 50 50 0) =
     [Observation 0 0 True False,
      Observation 57500000000 57500000001 False True,
      Observation 60000000000 60000000001 False False] \<and>
   timer_after (mStartTime (initial 50 50 0))
     [Observation 0 0 True False,
      Observation 57500000000 57500000001 False True,
      Observation 60000000000 60000000001 False False] = 57500000001 \<and>
   UNHEDGED_LOTS_TIME_LIMIT \<le> elapsed_ms 120000000000 57500000001 \<and>
   UNHEDGED_LOTS_TIME_LIMIT \<le> elapsed_ms 120000000000 0"
proof -
  let ?es = "[OrderBookMessage 0 0 FUTURE 1 [10000] [5] [9900] [5],
            OrderFilledMessage 2 9900 50,
            OrderBookMessage 57500000000 57500000001 FUTURE 2 [10000] [5] [9900] [5],
            OrderFilledMessage 1 10000 50,
            OrderBookMessage 60000000000 60000000001 FUTURE 3 [10000] [5] [9900] [5]]"
  have h: "list_ex is_hedge
     (emitted (run example_venue ?es (initial 50 50 0))
        (handle example_venue
           (OrderBookMessage 120000000000 120000000001 FUTURE 4 [10000] [5] [9900] [5])
           (run example_venue ?es (initial 50 50 0))))"
    by code_simp
  have st: "steady (concat (map readings ?es) @ [120000000000])"
    by code_simp
  have ob: "observations example_venue ?es (initial 50 50 0) =
     [Observation 0 0 True False,
      Observation 57500000000 57500000001 False True,
      Observation 60000000000 60000000001 False False]"
    by code_simp
  have tm: "timer_after (mStartTime (initial 50 50 0))
     [Observation 0 0 True False,
      Observation 57500000000 57500000001 False True,
      Observation 60000000000 60000000001 False False] = 57500000001"
    by code_simp
  from hedge_waits_for_timer [OF h] st
  have older: "\<forall>ob \<in> set (observations example_venue ?es (initial 50 50 0)).
           \<forall>t. restart ob = Some t \<longrightarrow>
             UNHEDGED_LOTS_TIME_LIMIT \<le> elapsed_ms 120000000000 t"
    and cur: "UNHEDGED_LOTS_TIME_LIMIT \<le> elapsed_ms 120000000000
        (timer_after (mStartTime (initial 50 50 0))
           (observations example_venue ?es (initial 50 50 0)))"
    by blast+
  have "UNHEDGED_LOTS_TIME_LIMIT \<le> elapsed_ms 120000000000 0"
    using older unfolding ob by simp
  then show ?thesis using h st ob tm cur by simp
qed

section \<open>Identifiers of the two slots\<close>

text \<open>
  The hypothesis of the terminal-event theorem, that the two slots do not hold the same
  order, holds in every state a fresh engine reaches, as long as the identifier counter
  has not wrapped around: each callback draws at most three identifiers.
\<close>

lemma word64_succ:
  fixes x y :: "64 word"
  assumes "unat y + 1 < 2 ^ 64"
  shows "unat (y + 1) = unat y + 1" and "y < y + 1" and "x < y \<Longrightarrow> x < y + 1"
proof -
  have "unat y + unat (1 :: 64 word) < 2 ^ LENGTH(64)" using assms by simp
  then have "unat (y + 1) = unat y + unat (1 :: 64 word)"
    by (simp only: unat_add_lem)
  then show u: "unat (y + 1) = unat y + 1" by simp
  then show "y < y + 1" by (simp add: word_less_nat_alt)
  show "x < y \<Longrightarrow> x < y + 1" using u by (simp add: word_less_nat_alt)
qed

lemma word64_pos: "(x :: 64 word) < y \<Longrightarrow> 0 < y"
  using le_less_trans [OF word_zero_le] by blast

lemma fresh_CancelAskOrder:
  assumes "mAskId s < mNextMessageId s" "mBidId s < mNextMessageId s"
    "mAskId s \<noteq> mBidId s \<or> mAskId s = 0"
  shows "mAskId (CancelAskOrder p s) < mNextMessageId (CancelAskOrder p s) \<and>
         mBidId (CancelAskOrder p s) < mNextMessageId (CancelAskOrder p s) \<and>
         (mAskId (CancelAskOrder p s) \<noteq> mBidId (CancelAskOrder p s) \<or>
          mAskId (CancelAskOrder p s) = 0) \<and>
         mNextMessageId (CancelAskOrder p s) = mNextMessageId s"
  using assms word64_pos [OF assms(1)] by (simp add: CancelAskOrder_def)

lemma fresh_CancelBidOrder:
  assumes "mAskId s < mNextMessageId s" "mBidId s < mNextMessageId s"
    "mAskId s \<noteq> mBidId s \<or> mAskId s = 0"
  shows "mAskId (CancelBidOrder p s) < mNextMessageId (CancelBidOrder p s) \<and>
         mBidId (CancelBidOrder p s) < mNextMessageId (CancelBidOrder p s) \<and>
         (mAskId (CancelBidOrder p s) \<noteq> mBidId (CancelBidOrder p s) \<or>
          mAskId (CancelBidOrder p s) = 0) \<and>
         mNextMessageId (CancelBidOrder p s) = mNextMessageId s"
  using assms word64_pos [OF assms(1)] by (auto simp add: CancelBidOrder_def)

lemma fresh_InsertAskOrder:
  assumes "mAskId s < mNextMessageId s" "mBidId s < mNextMessageId s"
    "mAskId s \<noteq> mBidId s \<or> mAskId s = 0" "unat (mNextMessageId s) + 1 < 2 ^ 64"
  shows "mAskId (InsertAskOrder p q s) < mNextMessageId (InsertAskOrder p q s) \<and>
         mBidId (InsertAskOrder p q s) < mNextMessageId (InsertAskOrder p q s) \<and>
         (mAskId (InsertAskOrder p q s) \<noteq> mBidId (InsertAskOrder p q s) \<or>
          mAskId (InsertAskOrder p q s) = 0) \<and>
         unat (mNextMessageId (InsertAskOrder p q s)) \<le> unat (mNextMessageId s) + 1"
  using assms word64_succ [OF assms(4)]
  by (auto simp add: InsertAskOrder_def Let_def)

lemma fresh_InsertBidOrder:
  assumes "mAskId s < mNextMessageId s" "mBidId s < mNextMessageId s"
    "mAskId s \<noteq> mBidId s \<or> mAskId s = 0" "unat (mNextMessageId s) + 1 < 2 ^ 64"
  shows "mAskId (InsertBidOrder p q s) < mNextMessageId (InsertBidOrder p q s) \<and>
         mBidId (InsertBidOrder p q s) < mNextMessageId (InsertBidOrder p q s) \<and>
         (mAskId (InsertBidOrder p q s) \<noteq> mBidId (InsertBidOrder p q s) \<or>
          mAskId (InsertBidOrder p q s) = 0) \<and>
         unat (mNextMessageId (InsertBidOrder p q s)) \<le> unat (mNextMessageId s) + 1"
  using assms word64_succ [OF assms(4)]
  by (auto simp add: InsertBidOrder_def Let_def)

lemma fresh_HedgeOrder:
  assumes "mAskId s < mNextMessageId s" "mBidId s < mNextMessageId s"
    "mAskId s \<noteq> mBidId s \<or> mAskId s = 0" "unat (mNextMessageId s) + 1 < 2 ^ 64"
  shows "mAskId (HedgeOrder v s) < mNextMessageId (HedgeOrder v s) \<and>
         mBidId (HedgeOrder v s) < mNextMessageId (HedgeOrder v s) \<and>
         (mAskId (HedgeOrder v s) \<noteq> mBidId (HedgeOrder v s) \<or> mAskId (HedgeOrder v s) = 0) \<and>
         unat (mNextMessageId (HedgeOrder v s)) \<le> unat (mNextMessageId s) + 1"
  using assms word64_succ [OF assms(4)]
  by (auto simp add: HedgeOrder_def Let_def)

lemma fresh_OrderStatusMessageHandler:
  assumes "mAskId s < mNextMessageId s" "mBidId s < mNextMessageId s"
    "mAskId s \<noteq> mBidId s \<or> mAskId s = 0"
  shows "mAskId (OrderStatusMessageHandler c f r fees s) < mNextMessageId s \<and>
         mBidId (OrderStatusMessageHandler c f r fees s) < mNextMessageId s \<and>
         (mAskId (OrderStatusMessageHandler c f r fees s) \<noteq>
            mBidId (OrderStatusMessageHandler c f r fees s) \<or>
          mAskId (OrderStatusMessageHandler c f r fees s) = 0) \<and>
         mNextMessageId (OrderStatusMessageHandler c f r fees s) = mNextMessageId s"
  using assms word64_pos [OF assms(1)]
  by (auto simp add: OrderStatusMessageHandler_def Let_def)

lemma fresh_handle:
  assumes "mAskId s < mNextMessageId s" "mBidId s < mNextMessageId s"
    "mAskId s \<noteq> mBidId s \<or> mAskId s = 0" "unat (mNextMessageId s) + 3 < 2 ^ 64"
  shows "mAskId (handle v e s) < mNextMessageId (handle v e s) \<and>
         mBidId (handle v e s) < mNextMessageId (handle v e s) \<and>
         (mAskId (handle v e s) \<noteq> mBidId (handle v e s) \<or> mAskId (handle v e s) = 0) \<and>
         unat (mNextMessageId (handle v e s)) \<le> unat (mNextMessageId s) + 3"
proof (cases e)
  case (OrderBookMessage now1 now2 i n ap av bp bv)
  show ?thesis
  proof (cases i)
    case FUTURE
    let ?s1 = "CancelAskOrder (ap ! 0) s"
    let ?s2 = "InsertAskOrder (ap ! 0) (mNewAskVolume s) ?s1"
    let ?s3 = "CancelBidOrder (bp ! 0) ?s2"
    let ?s4 = "InsertBidOrder (bp ! 0) (mNewBidVolume s) ?s3"
    have 1: "mAskId ?s1 < mNextMessageId ?s1" "mBidId ?s1 < mNextMessageId ?s1"
      "mAskId ?s1 \<noteq> mBidId ?s1 \<or> mAskId ?s1 = 0" "mNextMessageId ?s1 = mNextMessageId s"
      using fresh_CancelAskOrder [OF assms(1-3), of "ap ! 0"] by blast+
    have n1: "unat (mNextMessageId ?s1) + 1 < 2 ^ 64" using 1(4) assms(4) by simp
    have 2: "mAskId ?s2 < mNextMessageId ?s2" "mBidId ?s2 < mNextMessageId ?s2"
      "mAskId ?s2 \<noteq> mBidId ?s2 \<or> mAskId ?s2 = 0"
      "unat (mNextMessageId ?s2) \<le> unat (mNextMessageId s) + 1"
      using fresh_InsertAskOrder [OF 1(1-3) n1, of "ap ! 0" "mNewAskVolume s"] 1(4) by auto
    have 3: "mAskId ?s3 < mNextMessageId ?s3" "mBidId ?s3 < mNextMessageId ?s3"
      "mAskId ?s3 \<noteq> mBidId ?s3 \<or> mAskId ?s3 = 0" "mNextMessageId ?s3 = mNextMessageId ?s2"
      using fresh_CancelBidOrder [OF 2(1-3), of "bp ! 0"] by blast+
    have n3: "unat (mNextMessageId ?s3) + 1 < 2 ^ 64" using 3(4) 2(4) assms(4) by simp
    have 4: "mAskId ?s4 < mNextMessageId ?s4" "mBidId ?s4 < mNextMessageId ?s4"
      "mAskId ?s4 \<noteq> mBidId ?s4 \<or> mAskId ?s4 = 0"
      "unat (mNextMessageId ?s4) \<le> unat (mNextMessageId s) + 2"
      using fresh_InsertBidOrder [OF 3(1-3) n3, of "bp ! 0" "mNewBidVolume s"] 3(4) 2(4)
      by auto
    have n4: "unat (mNextMessageId ?s4) + 1 < 2 ^ 64" using 4(4) assms(4) by simp
    have 5: "mAskId (HedgeOrder v ?s4) < mNextMessageId (HedgeOrder v ?s4)"
      "mBidId (HedgeOrder v ?s4) < mNextMessageId (HedgeOrder v ?s4)"
      "mAskId (HedgeOrder v ?s4) \<noteq> mBidId (HedgeOrder v ?s4) \<or> mAskId (HedgeOrder v ?s4) = 0"
      "unat (mNextMessageId (HedgeOrder v ?s4)) \<le> unat (mNextMessageId s) + 3"
      using fresh_HedgeOrder [OF 4(1-3) n4, of v] 4(4) by auto
    have q: "quoted (ap ! 0) (bp ! 0) s = ?s4" by (simp add: quoted_def Let_def)
    show ?thesis
      unfolding OrderBookMessage FUTURE handle.simps OrderBookMessageHandler_quoted q
      using 4 5 by auto
  next
    case ETF
    then show ?thesis using assms OrderBookMessage by (simp add: OrderBookMessageHandler_def)
  qed
next
  case (OrderFilledMessage c p vol)
  then show ?thesis using assms by (simp add: OrderFilledMessageHandler_def Let_def)
next
  case (OrderStatusMessage c f r fees)
  then show ?thesis
    using fresh_OrderStatusMessageHandler [OF assms(1-3), of c f r fees] by simp
next
  case (ErrorMessage c m)
  then show ?thesis
    using fresh_OrderStatusMessageHandler [OF assms(1-3), of c 0 0 0] assms
    by (simp add: ErrorMessageHandler_def)
next
  case (HedgeFilledMessage c p vol)
  then show ?thesis using assms by (simp add: HedgeFilledMessageHandler_def)
next
  case (TradeTicksMessage i n ap av bp bv)
  then show ?thesis using assms by (simp add: TradeTicksMessageHandler_def)
qed

lemma fresh_run:
  assumes "mAskId s < mNextMessageId s" "mBidId s < mNextMessageId s"
    "mAskId s \<noteq> mBidId s \<or> mAskId s = 0"
    "unat (mNextMessageId s) + 3 * length es < 2 ^ 64"
  shows "mAskId (run v es s) \<noteq> mBidId (run v es s) \<or> mAskId (run v es s) = 0"
  using assms
proof (induction es arbitrary: s)
  case Nil
  then show ?case by simp
next
  case (Cons e es)
  have n: "unat (mNextMessageId s) + 3 < 2 ^ 64" using Cons.prems(4) by simp
  from fresh_handle [OF Cons.prems(1-3) n, of v e]
  have h: "mAskId (handle v e s) < mNextMessageId (handle v e s)"
    "mBidId (handle v e s) < mNextMessageId (handle v e s)"
    "mAskId (handle v e s) \<noteq> mBidId (handle v e s) \<or> mAskId (handle v e s) = 0"
    "unat (mNextMessageId (handle v e s)) \<le> unat (mNextMessageId s) + 3"
    by blast+
  have "unat (mNextMessageId (handle v e s)) + 3 * length es < 2 ^ 64"
    using h(4) Cons.prems(4) by simp
  from Cons.IH [OF h(1-3) this] show ?case by simp
qed

lemma slots_hold_different_orders:
  assumes "3 * length es + 1 < 2 ^ 64"
  shows "mAskId (run v es (initial newAsk newBid t0)) \<noteq>
           mBidId (run v es (initial newAsk newBid t0)) \<or>
         mAskId (run v es (initial newAsk newBid t0)) = 0"
  using assms by (intro fresh_run) (simp_all add: initial_def)

section \<open>The position limit\<close>























subsection \<open>The bookkeeping of identifiers\<close>












subsection \<open>Orderly steps keep the bounds\<close>









end
